theory Spec2Isabelle
  imports Main "HOL-Library.Sublist" "HOL-Library.Multiset"
begin

section \<open>Browser Audio Switcher: strings\<close>

text \<open>
  Python strings are modelled as \<open>string\<close> (lists of 8-bit characters). The model is
  exact on ASCII text, which is what the audio server and the window manager print for
  the property keys, the stream ids and the process ids the program looks at. A character
  outside ASCII is an ordinary character here: it is not white space, not a line boundary,
  not a digit, and \<open>lower\<close> leaves it alone.
\<close>

definition lower_char :: "char \<Rightarrow> char" where
  "lower_char c =
     (case map_of (zip ''ABCDEFGHIJKLMNOPQRSTUVWXYZ'' ''abcdefghijklmnopqrstuvwxyz'') c of
        Some d \<Rightarrow> d
      | None \<Rightarrow> c)"

text \<open>\<^verbatim>\<open>s.lower()\<close>\<close>

definition lower :: "string \<Rightarrow> string" where
  "lower s = map lower_char s"

text \<open>\<^verbatim>\<open>needle in hay\<close> on strings: \<open>needle\<close> occurs as a contiguous piece of \<open>hay\<close>.\<close>

fun str_in :: "string \<Rightarrow> string \<Rightarrow> bool" where
  "str_in needle [] = (needle = [])"
| "str_in needle (c # cs) = (prefix needle (c # cs) \<or> str_in needle cs)"

text \<open>
  \<^verbatim>\<open>stream.get('app_name', '').lower()\<close>: a missing key reads as the empty string.
\<close>

definition get_lower :: "string option \<Rightarrow> string" where
  "get_lower v = lower (case v of None \<Rightarrow> [] | Some s \<Rightarrow> s)"

text \<open>Truthiness of a value that is \<^verbatim>\<open>None\<close> or a string.\<close>

definition truthy :: "string option \<Rightarrow> bool" where
  "truthy v = (case v of None \<Rightarrow> False | Some s \<Rightarrow> s \<noteq> [])"

section \<open>Data model\<close>

text \<open>
  A parsed stream is a dict with the keys \<^verbatim>\<open>id\<close>, \<^verbatim>\<open>app_name\<close>, \<^verbatim>\<open>binary\<close>,
  \<^verbatim>\<open>media_name\<close> and \<^verbatim>\<open>pid\<close>, each present or not: a record of options.
\<close>

record stream =
  sid :: "string option"
  app_name :: "string option"
  binary :: "string option"
  media_name :: "string option"
  pid :: "string option"

text \<open>
  The trace of a run: one entry for every call of a helper that runs external commands,
  in the order of the calls. \<open>WmctrlList\<close> is \<^verbatim>\<open>list_all_windows()\<close>, \<open>WmctrlFocusId w\<close>
  the command of \<^verbatim>\<open>focus_window_by_id(w)\<close>, \<open>WmctrlFocusTitle t\<close> is \<^verbatim>\<open>wmctrl -a t\<close>,
  \<open>WmctrlFindPid p\<close> is \<^verbatim>\<open>find_window_by_pid(p)\<close>, \<open>XpropFindClass c\<close> is
  \<^verbatim>\<open>find_window_by_class(c)\<close>, \<open>XpropPid w\<close> is \<^verbatim>\<open>get_window_pid(w)\<close>,
  \<open>XdotoolActivate w\<close> is \<^verbatim>\<open>xdotool windowactivate w\<close>, \<open>PactlListSinkInputs\<close> and
  \<open>PactlListSourceOutputs\<close> are the two inventory fetches, \<open>PactlSetVol i p\<close> is
  \<^verbatim>\<open>set_vol(i, p)\<close> and \<open>PactlSetMute i m\<close> is \<^verbatim>\<open>set_mute(i, m)\<close>. The last two swallow
  every failure of the command and return \<^verbatim>\<open>True\<close>, and no caller reads what they
  return.
\<close>

datatype cmd =
    WmctrlList
  | WmctrlFocusId string
  | WmctrlFocusTitle string
  | WmctrlFindPid string
  | XpropFindClass string
  | XpropPid string
  | XdotoolActivate string
  | PactlListSinkInputs
  | PactlListSourceOutputs
  | PactlSetVol string nat
  | PactlSetMute string bool

datatype py_error = UnboundLocalError | IndexError | KeyError | ValueError | OSError

text \<open>
  What the outside world answers. \<open>focus_ok w\<close>: \<^verbatim>\<open>wmctrl -i -a w\<close> exits with 0;
  \<open>title_ok t\<close>: \<^verbatim>\<open>wmctrl -a t\<close> exits with 0; \<open>window_of_pid p\<close> is what
  \<^verbatim>\<open>find_window_by_pid(p)\<close> returns, \<open>window_of_class c\<close> what
  \<^verbatim>\<open>find_window_by_class(c)\<close> returns, \<open>window_pid w\<close> what \<^verbatim>\<open>get_window_pid(w)\<close>
  returns; \<open>xdotool_runs\<close>: \<^verbatim>\<open>subprocess.call(["xdotool", ...])\<close> returns instead of
  raising; \<open>sink_inputs\<close> and \<open>source_outputs\<close> are the texts that
  \<^verbatim>\<open>run(["pactl", "list", ...])\<close> returns (empty when the command fails).
\<close>

record env =
  focus_ok :: "string \<Rightarrow> bool"
  title_ok :: "string \<Rightarrow> bool"
  window_of_pid :: "string \<Rightarrow> string option"
  window_of_class :: "string \<Rightarrow> string option"
  window_pid :: "string \<Rightarrow> string option"
  xdotool_runs :: bool
  sink_inputs :: string
  source_outputs :: string

text \<open>
  Indexing a list whose length is \<open>len\<close> with the integer \<open>i\<close>: the position meant,
  where \<open>-1\<close> is the last element, or \<open>None\<close> when Python raises \<^verbatim>\<open>IndexError\<close>.
\<close>

definition py_index :: "nat \<Rightarrow> int \<Rightarrow> nat option" where
  "py_index len i =
     (if 0 \<le> i \<and> i < int len then Some (nat i)
      else if i < 0 \<and> - int len \<le> i then Some (nat (int len + i))
      else None)"

text \<open>\<^verbatim>\<open>xs[i]\<close> and \<^verbatim>\<open>xs[i] = v\<close>\<close>

definition py_get :: "'a list \<Rightarrow> int \<Rightarrow> py_error + 'a" where
  "py_get xs i = (case py_index (length xs) i of None \<Rightarrow> Inl IndexError | Some k \<Rightarrow> Inr (xs ! k))"

definition py_set :: "'a list \<Rightarrow> int \<Rightarrow> 'a \<Rightarrow> py_error + 'a list" where
  "py_set xs i v =
     (case py_index (length xs) i of None \<Rightarrow> Inl IndexError | Some k \<Rightarrow> Inr (xs[k := v]))"

section \<open>Playback attribution: \<^verbatim>\<open>adjust_stream_volumes\<close>\<close>

definition ACTIVE_VOL :: nat where "ACTIVE_VOL = 100"
definition INACTIVE_VOL :: nat where "INACTIVE_VOL = 30"

text \<open>The dict \<^verbatim>\<open>browser_names\<close> of \<^verbatim>\<open>adjust_stream_volumes\<close>.\<close>

definition browser_names :: "int \<Rightarrow> string list" where
  "browser_names i =
     (if i = 1 then [''vivaldi'', ''vivaldimail'']
      else if i = 2 then [''chrome'', ''google chrome'', ''chromium'']
      else if i = 3 then [''brave'', ''brave-browser'']
      else [])"

text \<open>\<^verbatim>\<open>any(name in app_name or name in binary for name in names)\<close>\<close>

definition any_name_in :: "string list \<Rightarrow> string \<Rightarrow> string \<Rightarrow> bool" where
  "any_name_in names app bin = list_ex (\<lambda>name. str_in name app \<or> str_in name bin) names"

text \<open>The local variables of the first attempt that live across its loop.\<close>

record vol_state =
  vivaldi_streams :: "string list"
  chrome_streams :: "string list"
  brave_streams :: "string list"
  browser_stream_ids :: "string list"
  success :: bool
  calls :: "cmd list"

text \<open>
  The \<^verbatim>\<open>if/elif\<close> chain of the first pass for one stream with id \<open>i\<close>: the browser
  index the stream is given (\<^verbatim>\<open>stream_browser_idx\<close>, \<open>None\<close> when it stays unset) and
  the three lists after the \<^verbatim>\<open>append\<close> of the branch taken.
\<close>

definition classify ::
  "int \<Rightarrow> string option \<Rightarrow> vol_state \<Rightarrow> string \<Rightarrow> stream \<Rightarrow> int option \<times> vol_state" where
  "classify active_idx active_pid st i s =
     (let binary_l = get_lower (binary s);
          app = get_lower (app_name s);
          stream_pid = (case pid s of None \<Rightarrow> [] | Some p \<Rightarrow> p)
      in if any_name_in (browser_names 1) app binary_l then
           (Some 1, st\<lparr>vivaldi_streams := vivaldi_streams st @ [i]\<rparr>)
         else if any_name_in (browser_names 2) app binary_l then
           (Some 2, st\<lparr>chrome_streams := chrome_streams st @ [i]\<rparr>)
         else if any_name_in (browser_names 3) app binary_l then
           (Some 3, st\<lparr>brave_streams := brave_streams st @ [i]\<rparr>)
         else if active_idx = 2 \<and> (str_in ''chromium'' app \<or> str_in ''chromium'' binary_l) then
           (Some 2, st\<lparr>chrome_streams := chrome_streams st @ [i]\<rparr>)
         else if str_in ''chromium'' app \<or> str_in ''chromium'' binary_l then
           (if Some stream_pid = active_pid then
              (Some active_idx,
               if active_idx = 1 then st\<lparr>vivaldi_streams := vivaldi_streams st @ [i]\<rparr>
               else if active_idx = 2 then st\<lparr>chrome_streams := chrome_streams st @ [i]\<rparr>
               else if active_idx = 3 then st\<lparr>brave_streams := brave_streams st @ [i]\<rparr>
               else st)
            else if active_idx = 1 \<and> vivaldi_streams st = [] then
              (Some 1, st\<lparr>vivaldi_streams := vivaldi_streams st @ [i]\<rparr>)
            else (None, st))
         else (None, st))"

text \<open>One turn of the first pass: classify, then set the volume of a classified stream.\<close>

definition first_pass_step :: "int \<Rightarrow> string option \<Rightarrow> vol_state \<Rightarrow> stream \<Rightarrow> vol_state" where
  "first_pass_step active_idx active_pid st s =
     (case sid s of
        None \<Rightarrow> st
      | Some i \<Rightarrow>
          (case classify active_idx active_pid st i s of
             (None, st') \<Rightarrow> st'
           | (Some b, st') \<Rightarrow>
               st'\<lparr>calls := calls st' @
                      [PactlSetVol i (if b = active_idx then ACTIVE_VOL else INACTIVE_VOL)],
                    browser_stream_ids := browser_stream_ids st' @ [i],
                    success := True\<rparr>))"

definition first_pass :: "int \<Rightarrow> string option \<Rightarrow> vol_state \<Rightarrow> stream list \<Rightarrow> vol_state" where
  "first_pass active_idx active_pid st streams =
     fold (\<lambda>s st. first_pass_step active_idx active_pid st s) streams st"

text \<open>
  The loop after the first pass, run when browser 1 is active and no stream was given to
  it: every stream whose id is not in \<^verbatim>\<open>browser_stream_ids\<close> is set to the active volume.
\<close>

definition unassigned_to_vivaldi :: "string list \<Rightarrow> stream list \<Rightarrow> cmd list" where
  "unassigned_to_vivaldi assigned streams =
     concat (map (\<lambda>s. case sid s of
                         None \<Rightarrow> []
                       | Some i \<Rightarrow> if i \<in> set assigned then [] else [PactlSetVol i ACTIVE_VOL])
                 streams)"

text \<open>
  The "more aggressive approach", run when \<^verbatim>\<open>success\<close> is still false: one volume-set
  for every stream with an id, by the brand of the active browser alone.
\<close>

definition aggressive_step :: "int \<Rightarrow> stream \<Rightarrow> cmd list" where
  "aggressive_step active_idx s =
     (case sid s of
        None \<Rightarrow> []
      | Some i \<Rightarrow>
          (let app = get_lower (app_name s); binary_l = get_lower (binary s);
               brand = (if active_idx = 1 then Some ''vivaldi''
                        else if active_idx = 2 then Some ''chrome''
                        else if active_idx = 3 then Some ''brave''
                        else None)
           in case brand of
                None \<Rightarrow> []
              | Some b \<Rightarrow>
                  [PactlSetVol i (if str_in b app \<or> str_in b binary_l
                                  then ACTIVE_VOL else INACTIVE_VOL)]))"

definition aggressive :: "int \<Rightarrow> stream list \<Rightarrow> cmd list" where
  "aggressive active_idx streams = concat (map (aggressive_step active_idx) streams)"

text \<open>
  The first attempt, run when the active browser's window id is known: the window's
  process id is looked up, the first pass runs, and the loop for browser 1 follows.
\<close>

definition first_attempt :: "env \<Rightarrow> int \<Rightarrow> string \<Rightarrow> stream list \<Rightarrow> string option \<times> vol_state" where
  "first_attempt e active_idx w streams =
     (let active_pid = window_pid e w;
          st0 = \<lparr>vivaldi_streams = [], chrome_streams = [], brave_streams = [],
                 browser_stream_ids = [], success = False, calls = [XpropPid w]\<rparr>;
          st = first_pass active_idx active_pid st0 streams
      in if active_idx = 1 \<and> vivaldi_streams st = [] \<and> streams \<noteq> [] then
           (let extra = unassigned_to_vivaldi (browser_stream_ids st) streams
            in (active_pid,
                st\<lparr>calls := calls st @ extra, success := (success st \<or> extra \<noteq> [])\<rparr>))
         else (active_pid, st))"

text \<open>
  The "last resort" of browser 1. \<open>vivaldi_loop\<close> sets every stream that names Vivaldi
  to the active volume; \<open>pid_loop\<close> every stream of the active window's process;
  \<open>chromium_loop\<close> the first stream whose name has \<^verbatim>\<open>chromium\<close>, or \<^verbatim>\<open>chrome\<close> without
  \<^verbatim>\<open>google\<close> (its flag is \<^verbatim>\<open>chromium_found\<close>).
\<close>

definition vivaldi_loop :: "stream list \<Rightarrow> cmd list" where
  "vivaldi_loop streams =
     concat (map (\<lambda>s. case sid s of
                         None \<Rightarrow> []
                       | Some i \<Rightarrow>
                           if str_in ''vivaldi'' (get_lower (app_name s)) \<or>
                              str_in ''vivaldi'' (get_lower (binary s))
                           then [PactlSetVol i ACTIVE_VOL] else [])
                 streams)"

definition pid_loop :: "string option \<Rightarrow> stream list \<Rightarrow> cmd list" where
  "pid_loop active_pid streams =
     concat (map (\<lambda>s. case sid s of
                         None \<Rightarrow> []
                       | Some i \<Rightarrow> if pid s = active_pid then [PactlSetVol i ACTIVE_VOL] else [])
                 streams)"

fun chromium_loop :: "bool \<Rightarrow> stream list \<Rightarrow> cmd list" where
  "chromium_loop chromium_found [] = []"
| "chromium_loop chromium_found (s # ss) =
     (case sid s of
        None \<Rightarrow> chromium_loop chromium_found ss
      | Some i \<Rightarrow>
          (let app = get_lower (app_name s)
           in if str_in ''chromium'' app \<and> \<not> chromium_found then
                PactlSetVol i ACTIVE_VOL # chromium_loop True ss
              else if str_in ''chrome'' app \<and> \<not> str_in ''google'' app \<and> \<not> chromium_found then
                PactlSetVol i ACTIVE_VOL # chromium_loop True ss
              else chromium_loop chromium_found ss))"

text \<open>
  \<open>active_pid\<close> is a local variable that only the first attempt assigns: it is
  \<open>None\<close> here while unbound, and reading it then raises \<^verbatim>\<open>UnboundLocalError\<close>.
  The result is the calls made and the error raised, if any.
\<close>

definition last_resort :: "string option option \<Rightarrow> stream list \<Rightarrow> cmd list \<times> py_error option" where
  "last_resort active_pid streams =
     (let c1 = vivaldi_loop streams
      in if c1 \<noteq> [] then (c1, None)
         else (case active_pid of
                 None \<Rightarrow> (c1, Some UnboundLocalError)
               | Some ap \<Rightarrow>
                   (let c2 = (if truthy ap then pid_loop ap streams else [])
                    in if c2 \<noteq> [] then (c1 @ c2, None)
                       else (c1 @ c2 @ chromium_loop False streams, None))))"

text \<open>
  The special case of browser 2. \<open>chromium_inactive\<close> sets the streams named
  \<^verbatim>\<open>chromium\<close> but not \<^verbatim>\<open>google chrome\<close> to the inactive volume, unless they belong to the
  active window's process; \<open>google_chrome_loop\<close> then sets the streams named
  \<^verbatim>\<open>google chrome\<close> to the active volume.
\<close>

fun chromium_inactive :: "string option option \<Rightarrow> stream list \<Rightarrow> cmd list \<times> py_error option" where
  "chromium_inactive active_pid [] = ([], None)"
| "chromium_inactive active_pid (s # ss) =
     (case sid s of
        None \<Rightarrow> chromium_inactive active_pid ss
      | Some i \<Rightarrow>
          (let app = get_lower (app_name s)
           in if str_in ''chromium'' app \<and> \<not> str_in ''google chrome'' app then
                (case active_pid of
                   None \<Rightarrow> ([], Some UnboundLocalError)
                 | Some ap \<Rightarrow>
                     (let (c, err) = chromium_inactive active_pid ss
                      in ((if \<not> (truthy ap \<and> pid s = ap)
                           then [PactlSetVol i INACTIVE_VOL] else []) @ c, err)))
              else chromium_inactive active_pid ss))"

definition google_chrome_loop :: "stream list \<Rightarrow> cmd list" where
  "google_chrome_loop streams =
     concat (map (\<lambda>s. case sid s of
                         None \<Rightarrow> []
                       | Some i \<Rightarrow>
                           if str_in ''google chrome'' (get_lower (app_name s))
                           then [PactlSetVol i ACTIVE_VOL] else [])
                 streams)"

definition special_browser2 :: "string option option \<Rightarrow> stream list \<Rightarrow> cmd list \<times> py_error option" where
  "special_browser2 active_pid streams =
     (case chromium_inactive active_pid streams of
        (c, Some err) \<Rightarrow> (c, Some err)
      | (c, None) \<Rightarrow> (c @ google_chrome_loop streams, None))"

text \<open>
  \<^verbatim>\<open>active_idx <= len(browser_windows) and browser_windows[active_idx-1]\<close>: the window id
  when the condition is true, \<open>None\<close> when it is false.
\<close>

definition registered_window :: "string option list \<Rightarrow> int \<Rightarrow> py_error + string option" where
  "registered_window browser_windows active_idx =
     (if active_idx \<le> int (length browser_windows) then
        (case py_get browser_windows (active_idx - 1) of
           Inl err \<Rightarrow> Inl err
         | Inr w \<Rightarrow> Inr (if truthy w then w else None))
      else Inr None)"

text \<open>
  \<^verbatim>\<open>adjust_stream_volumes(active_idx, streams)\<close>, reading the global
  \<^verbatim>\<open>browser_windows\<close>: the calls made, and the value returned or the exception raised.
\<close>

definition adjust_stream_volumes ::
  "env \<Rightarrow> string option list \<Rightarrow> int \<Rightarrow> stream list \<Rightarrow> cmd list \<times> (py_error + bool)" where
  "adjust_stream_volumes e browser_windows active_idx streams =
     (case registered_window browser_windows active_idx of
        Inl err \<Rightarrow> ([], Inl err)
      | Inr w \<Rightarrow>
          (let (active_pid, c1, success1) =
                 (case w of
                    None \<Rightarrow> (None, [], False)
                  | Some wid \<Rightarrow>
                      (let (ap, st) = first_attempt e active_idx wid streams
                       in (Some ap, calls st, success st)));
               c2 = (if \<not> success1 \<and> streams \<noteq> [] then aggressive active_idx streams else []);
               success2 = (success1 \<or> c2 \<noteq> []);
               (c3, err3) = (if active_idx = 1 \<and> streams \<noteq> []
                             then last_resort active_pid streams else ([], None))
           in case err3 of
                Some err \<Rightarrow> (c1 @ c2 @ c3, Inl err)
              | None \<Rightarrow>
                  (let (c4, err4) = (if active_idx = 2 \<and> streams \<noteq> []
                                     then special_browser2 active_pid streams else ([], None))
                   in case err4 of
                        Some err \<Rightarrow> (c1 @ c2 @ c3 @ c4, Inl err)
                      | None \<Rightarrow> (c1 @ c2 @ c3 @ c4, Inr success2))))"

section \<open>Capture attribution: \<^verbatim>\<open>adjust_microphone_streams\<close>\<close>

text \<open>White space as \<^verbatim>\<open>str.isspace\<close>, \<^verbatim>\<open>str.strip\<close> and the pattern \<^verbatim>\<open>\s\<close> see it (ASCII).\<close>

definition is_space :: "char \<Rightarrow> bool" where
  "is_space c = (c \<in> set [CHR 0x09, CHR 0x0A, CHR 0x0B, CHR 0x0C, CHR 0x0D,
                            CHR 0x1C, CHR 0x1D, CHR 0x1E, CHR 0x1F, CHR 0x20])"

definition is_digit :: "char \<Rightarrow> bool" where
  "is_digit c = (c \<in> set ''0123456789'')"

text \<open>\<^verbatim>\<open>s.strip()\<close>\<close>

definition strip :: "string \<Rightarrow> string" where
  "strip s = rev (dropWhile is_space (rev (dropWhile is_space s)))"

text \<open>
  Whether \<^verbatim>\<open>int(s)\<close> returns (it raises \<^verbatim>\<open>ValueError\<close> otherwise): after stripping
  white space (tab to carriage return, and the space) and one sign, \<open>s\<close> is digits, with
  single underscores allowed between them.
\<close>

definition is_int_space :: "char \<Rightarrow> bool" where
  "is_int_space c = (c \<in> set [CHR 0x09, CHR 0x0A, CHR 0x0B, CHR 0x0C, CHR 0x0D, CHR 0x20])"

fun digits_us :: "string \<Rightarrow> bool" where
  "digits_us [] = False"
| "digits_us [c] = is_digit c"
| "digits_us (c # d # cs) =
     (is_digit c \<and> (if d = CHR ''_'' then digits_us cs else digits_us (d # cs)))"

definition py_int_ok :: "string \<Rightarrow> bool" where
  "py_int_ok s =
     (case rev (dropWhile is_int_space (rev (dropWhile is_int_space s))) of
        [] \<Rightarrow> False
      | c # cs \<Rightarrow> if c = CHR ''+'' \<or> c = CHR ''-'' then digits_us cs else digits_us (c # cs))"

text \<open>
  \<^verbatim>\<open>browser_names.items()\<close> of \<^verbatim>\<open>adjust_microphone_streams\<close>, in the dict's order: when
  browser 1 is active, \<^verbatim>\<open>chromium\<close> is taken out of the names of browser 2 and appended
  to those of browser 1.
\<close>

definition mic_browser_names :: "int \<Rightarrow> (int \<times> string list) list" where
  "mic_browser_names active_idx =
     (if active_idx = 1 then
        [(1, browser_names 1 @ [''chromium'']),
         (2, filter (\<lambda>name. name \<noteq> ''chromium'') (browser_names 2)),
         (3, browser_names 3)]
      else [(1, browser_names 1), (2, browser_names 2), (3, browser_names 3)])"

record mic_state =
  browser_mic_streams :: "int \<Rightarrow> string list"
  chromium_streams :: "string list"
  mic_success :: bool
  mic_calls :: "cmd list"

text \<open>
  One turn of the loop over the capture streams. The list
  \<^verbatim>\<open>vivaldi_chromium_streams\<close> is appended to and never read: of its branch the model
  keeps the \<^verbatim>\<open>ValueError\<close> that \<^verbatim>\<open>int()\<close> can raise. \<^verbatim>\<open>browser_mic_streams\<close> has the
  keys 1, 2 and 3: indexing it with another \<^verbatim>\<open>active_idx\<close> raises \<^verbatim>\<open>KeyError\<close>.
\<close>

definition mic_step ::
  "int \<Rightarrow> string option \<Rightarrow> string option \<Rightarrow> string option \<Rightarrow> mic_state \<Rightarrow> stream
     \<Rightarrow> py_error + mic_state" where
  "mic_step active_idx active_pid vivaldi_pid chrome_pid st s =
     (case sid s of
        None \<Rightarrow> Inr st
      | Some i \<Rightarrow>
          if i = [] then Inr st
          else
            (let app = get_lower (app_name s);
                 binary_l = get_lower (binary s);
                 p = (case pid s of None \<Rightarrow> [] | Some q \<Rightarrow> q)
             in if active_idx = 2 \<and> str_in ''chromium'' app \<and> truthy vivaldi_pid \<and> p \<noteq> [] \<and>
                   truthy chrome_pid \<and>
                   \<not> (py_int_ok p \<and> py_int_ok (the vivaldi_pid) \<and> py_int_ok (the chrome_pid))
                then Inl ValueError
                else
                  (let m0 = map_option fst
                              (find (\<lambda>(idx, names). any_name_in names app binary_l)
                                    (mic_browser_names active_idx));
                       st1 = (case m0 of
                                None \<Rightarrow> st
                              | Some idx \<Rightarrow>
                                  st\<lparr>browser_mic_streams :=
                                       (browser_mic_streams st)
                                         (idx := browser_mic_streams st idx @ [i])\<rparr>);
                       st2 = (if str_in ''chromium'' app \<and> m0 = None
                              then st1\<lparr>chromium_streams := chromium_streams st1 @ [i]\<rparr>
                              else st1);
                       (m1, st3) =
                         (if active_idx = 2 \<and> str_in ''chromium input'' (lower app)
                          then (Some 1,
                                st2\<lparr>browser_mic_streams :=
                                      (browser_mic_streams st2)
                                        (1 := browser_mic_streams st2 1 @ [i])\<rparr>)
                          else (m0, st2))
                   in if m1 = None \<and> truthy active_pid \<and> Some p = active_pid then
                        (if active_idx \<in> {1, 2, 3} then
                           Inr (st3\<lparr>browser_mic_streams :=
                                      (browser_mic_streams st3)
                                        (active_idx := browser_mic_streams st3 active_idx @ [i]),
                                    mic_calls := mic_calls st3 @ [PactlSetMute i False],
                                    mic_success := True\<rparr>)
                         else Inl KeyError)
                      else if m1 = Some active_idx then
                        Inr (st3\<lparr>mic_calls := mic_calls st3 @ [PactlSetMute i False],
                                 mic_success := True\<rparr>)
                      else if m1 \<in> {Some 1, Some 2, Some 3} then
                        Inr (st3\<lparr>mic_calls := mic_calls st3 @ [PactlSetMute i True],
                                 mic_success := True\<rparr>)
                      else Inr st3)))"

text \<open>The loop: it stops at the first exception, keeping the state reached.\<close>

fun mic_loop ::
  "int \<Rightarrow> string option \<Rightarrow> string option \<Rightarrow> string option \<Rightarrow> mic_state \<Rightarrow> stream list
     \<Rightarrow> mic_state \<times> py_error option" where
  "mic_loop active_idx active_pid vivaldi_pid chrome_pid st [] = (st, None)"
| "mic_loop active_idx active_pid vivaldi_pid chrome_pid st (s # ss) =
     (case mic_step active_idx active_pid vivaldi_pid chrome_pid st s of
        Inl err \<Rightarrow> (st, Some err)
      | Inr st' \<Rightarrow> mic_loop active_idx active_pid vivaldi_pid chrome_pid st' ss)"

text \<open>
  The loop of the fallback for browser 1 over \<^verbatim>\<open>chromium_streams\<close>: it leaves with
  \<^verbatim>\<open>break\<close> at the end of its first turn.
\<close>

fun fallback_loop :: "string list \<Rightarrow> mic_state \<Rightarrow> mic_state" where
  "fallback_loop [] st = st"
| "fallback_loop (i # rest) st =
     st\<lparr>mic_calls := mic_calls st @ [PactlSetMute i False], mic_success := True\<rparr>"

definition mic_fallback :: "int \<Rightarrow> mic_state \<Rightarrow> mic_state" where
  "mic_fallback active_idx st =
     (if active_idx = 1 \<and> browser_mic_streams st 1 = [] \<and> chromium_streams st \<noteq> []
      then fallback_loop (chromium_streams st) st
      else st)"

text \<open>
  The process ids that \<^verbatim>\<open>adjust_microphone_streams\<close> looks up when browser 2 is active:
  \<^verbatim>\<open>len(browser_windows) >= k and browser_windows[k-1]\<close>.
\<close>

definition pid_of_slot :: "env \<Rightarrow> string option list \<Rightarrow> nat \<Rightarrow> cmd list \<times> string option" where
  "pid_of_slot e browser_windows k =
     (if k < length browser_windows \<and> truthy (browser_windows ! k)
      then ([XpropPid (the (browser_windows ! k))], window_pid e (the (browser_windows ! k)))
      else ([], None))"

definition mic_init ::
  "env \<Rightarrow> string option list \<Rightarrow> int \<Rightarrow> string option
     \<Rightarrow> cmd list \<times> string option \<times> string option \<times> string option" where
  "mic_init e browser_windows active_idx w =
     (let (c0, active_pid) = (case w of
                                None \<Rightarrow> ([], None)
                              | Some wid \<Rightarrow> ([XpropPid wid], window_pid e wid));
          (c1, vivaldi_pid) = (if active_idx = 2 then pid_of_slot e browser_windows 0
                               else ([], None));
          (c2, chrome_pid) = (if active_idx = 2 then pid_of_slot e browser_windows 1
                              else ([], None))
      in (c0 @ c1 @ c2, active_pid, vivaldi_pid, chrome_pid))"

definition adjust_microphone_streams ::
  "env \<Rightarrow> string option list \<Rightarrow> int \<Rightarrow> stream list \<Rightarrow> cmd list \<times> (py_error + bool)" where
  "adjust_microphone_streams e browser_windows active_idx streams =
     (if streams = [] then ([], Inr False)
      else
        (case registered_window browser_windows active_idx of
           Inl err \<Rightarrow> ([], Inl err)
         | Inr w \<Rightarrow>
             (let (c, active_pid, vivaldi_pid, chrome_pid) =
                    mic_init e browser_windows active_idx w;
                  st0 = \<lparr>browser_mic_streams = (\<lambda>_. []), chromium_streams = [],
                         mic_success = False, mic_calls = c\<rparr>
              in case mic_loop active_idx active_pid vivaldi_pid chrome_pid st0 streams of
                   (st, Some err) \<Rightarrow> (mic_calls st, Inl err)
                 | (st, None) \<Rightarrow>
                     (let st' = mic_fallback active_idx st
                      in (mic_calls st', Inr (mic_success st'))))))"

section \<open>Stream inventory: \<^verbatim>\<open>list_audio_streams\<close> and \<^verbatim>\<open>list_microphone_streams\<close>\<close>

text \<open>
  \<^verbatim>\<open>txt.splitlines()\<close>: a line ends at a line feed, a carriage return (with the line
  feed that follows it, if any), a vertical tab, a form feed or one of the separators
  \<^verbatim>\<open>\x1c\<close>, \<^verbatim>\<open>\x1d\<close>, \<^verbatim>\<open>\x1e\<close>. \<open>cur\<close> is the line being read.
\<close>

definition is_linebreak :: "char \<Rightarrow> bool" where
  "is_linebreak c = (c \<in> set [CHR 0x0A, CHR 0x0B, CHR 0x0C, CHR 0x0D, CHR 0x1C, CHR 0x1D, CHR 0x1E])"

fun splitlines_from :: "string \<Rightarrow> string \<Rightarrow> string list" where
  "splitlines_from cur [] = (if cur = [] then [] else [cur])"
| "splitlines_from cur [c] = (if is_linebreak c then [cur] else [cur @ [c]])"
| "splitlines_from cur (c # d # cs) =
     (if c = CHR 0x0D \<and> d = CHR 0x0A then cur # splitlines_from [] cs
      else if is_linebreak c then cur # splitlines_from [] (d # cs)
      else splitlines_from (cur @ [c]) (d # cs))"

definition splitlines :: "string \<Rightarrow> string list" where
  "splitlines txt = splitlines_from [] txt"

text \<open>
  \<^verbatim>\<open>pattern.search(line)\<close>: the match at the leftmost position where the pattern
  matches; \<open>m\<close> matches the pattern at the start of its argument and gives group 1.
\<close>

fun regex_search :: "(string \<Rightarrow> string option) \<Rightarrow> string \<Rightarrow> string option" where
  "regex_search m [] = m []"
| "regex_search m (c # cs) = (case m (c # cs) of Some g \<Rightarrow> Some g | None \<Rightarrow> regex_search m cs)"

text \<open>
  The common head of the patterns: the key, \<^verbatim>\<open>\s+=\s+\<close> and the opening quote. The
  result is the text after the quote.
\<close>

definition key_eq_quote :: "string \<Rightarrow> string \<Rightarrow> string option" where
  "key_eq_quote key s =
     (if \<not> prefix key s then None
      else
        (let r = drop (length key) s; r1 = dropWhile is_space r
         in if r1 = r \<or> r1 = [] \<or> hd r1 \<noteq> CHR ''='' then None
            else
              (let r2 = tl r1; r3 = dropWhile is_space r2
               in if r3 = r2 \<or> r3 = [] \<or> hd r3 \<noteq> CHR 0x22 then None
                  else Some (tl r3))))"

text \<open>\<^verbatim>\<open>([^"]+)"\<close> and \<^verbatim>\<open>(\d+)"\<close>: the longest run of the class, then the closing quote.\<close>

definition run_then_quote :: "(char \<Rightarrow> bool) \<Rightarrow> string \<Rightarrow> string option" where
  "run_then_quote cls v =
     (let g = takeWhile cls v; r = dropWhile cls v
      in if g \<noteq> [] \<and> r \<noteq> [] \<and> hd r = CHR 0x22 then Some g else None)"

text \<open>
  \<^verbatim>\<open>([^/]+)"\<close> on the run \<open>r\<close> of characters up to the next slash: the group is the run
  up to its last quote, and has one character at least.
\<close>

definition last_quote_group :: "string \<Rightarrow> string option" where
  "last_quote_group r =
     (let k = length (takeWhile (\<lambda>c. c \<noteq> CHR 0x22) (rev r))
      in if k < length r \<and> 1 \<le> length r - 1 - k then Some (take (length r - 1 - k) r) else None)"

text \<open>
  \<^verbatim>\<open>.*?/([^/]+)"\<close>: the lazy \<^verbatim>\<open>.*?\<close> stops at the first slash after which the rest
  matches, and does not cross a line feed.
\<close>

fun binary_scan :: "string \<Rightarrow> string option" where
  "binary_scan [] = None"
| "binary_scan (c # cs) =
     (if c = CHR ''/'' then
        (case last_quote_group (takeWhile (\<lambda>d. d \<noteq> CHR ''/'') cs) of
           Some g \<Rightarrow> Some g
         | None \<Rightarrow> binary_scan cs)
      else if c = CHR 0x0A then None
      else binary_scan cs)"

definition PAT_APP_NAME :: "string \<Rightarrow> string option" where
  "PAT_APP_NAME line =
     regex_search (\<lambda>s. case key_eq_quote ''application.name'' s of
                          None \<Rightarrow> None
                        | Some v \<Rightarrow> run_then_quote (\<lambda>c. c \<noteq> CHR 0x22) v) line"

definition PAT_MEDIA_NAME :: "string \<Rightarrow> string option" where
  "PAT_MEDIA_NAME line =
     regex_search (\<lambda>s. case key_eq_quote ''media.name'' s of
                          None \<Rightarrow> None
                        | Some v \<Rightarrow> run_then_quote (\<lambda>c. c \<noteq> CHR 0x22) v) line"

definition PAT_APP_PID :: "string \<Rightarrow> string option" where
  "PAT_APP_PID line =
     regex_search (\<lambda>s. case key_eq_quote ''application.process.id'' s of
                          None \<Rightarrow> None
                        | Some v \<Rightarrow> run_then_quote is_digit v) line"

definition PAT_APP_PROCESS :: "string \<Rightarrow> string option" where
  "PAT_APP_PROCESS line =
     regex_search (\<lambda>s. case key_eq_quote ''application.process.binary'' s of
                          None \<Rightarrow> None
                        | Some v \<Rightarrow> binary_scan v) line"

text \<open>\<^verbatim>\<open>{'id': line.split("#")[1].strip()}\<close>, for a line that has a \<^verbatim>\<open>#\<close>.\<close>

definition header_id :: "string \<Rightarrow> string" where
  "header_id line =
     strip (takeWhile (\<lambda>c. c \<noteq> CHR ''#'') (tl (dropWhile (\<lambda>c. c \<noteq> CHR ''#'') line)))"

definition new_stream :: "string \<Rightarrow> stream" where
  "new_stream line =
     \<lparr>sid = Some (header_id line), app_name = None, binary = None, media_name = None,
      pid = None\<rparr>"

definition empty_stream :: stream where
  "empty_stream = \<lparr>sid = None, app_name = None, binary = None, media_name = None, pid = None\<rparr>"

text \<open>\<^verbatim>\<open>if current and 'id' in current: streams.append(current)\<close>\<close>

definition flush :: "stream list \<Rightarrow> stream \<Rightarrow> stream list" where
  "flush streams current = (if sid current \<noteq> None then streams @ [current] else streams)"

text \<open>
  The property branches of the two parsers for a stripped line that is not a header:
  the \<^verbatim>\<open>elif\<close> chain, the first branch whose key the line contains deciding.
\<close>

definition sink_property :: "stream \<Rightarrow> string \<Rightarrow> stream" where
  "sink_property current line =
     (if str_in ''application.name'' line \<and> CHR ''='' \<in> set line then
        (case PAT_APP_NAME line of None \<Rightarrow> current | Some v \<Rightarrow> current\<lparr>app_name := Some v\<rparr>)
      else if str_in ''application.process.binary'' line then
        (case PAT_APP_PROCESS line of None \<Rightarrow> current | Some v \<Rightarrow> current\<lparr>binary := Some v\<rparr>)
      else if str_in ''media.name'' line then
        (case PAT_MEDIA_NAME line of None \<Rightarrow> current | Some v \<Rightarrow> current\<lparr>media_name := Some v\<rparr>)
      else if str_in ''application.process.id'' line then
        (case PAT_APP_PID line of None \<Rightarrow> current | Some v \<Rightarrow> current\<lparr>pid := Some v\<rparr>)
      else current)"

definition source_property :: "stream \<Rightarrow> string \<Rightarrow> stream" where
  "source_property current line =
     (if str_in ''application.name'' line \<and> CHR ''='' \<in> set line then
        (case PAT_APP_NAME line of None \<Rightarrow> current | Some v \<Rightarrow> current\<lparr>app_name := Some v\<rparr>)
      else if str_in ''application.process.binary'' line then
        (case PAT_APP_PROCESS line of None \<Rightarrow> current | Some v \<Rightarrow> current\<lparr>binary := Some v\<rparr>)
      else if str_in ''application.process.id'' line then
        (case PAT_APP_PID line of None \<Rightarrow> current | Some v \<Rightarrow> current\<lparr>pid := Some v\<rparr>)
      else current)"

text \<open>
  The loop over the lines, for the header \<open>hd_prefix\<close> and the property branches
  \<open>prop\<close>; the state is \<^verbatim>\<open>streams\<close> and the current stream.
\<close>

definition parse_line ::
  "string \<Rightarrow> (stream \<Rightarrow> string \<Rightarrow> stream) \<Rightarrow> stream list \<times> stream \<Rightarrow> string
     \<Rightarrow> stream list \<times> stream" where
  "parse_line hd_prefix prop acc raw =
     (let line = strip raw; streams = fst acc; current = snd acc
      in if prefix hd_prefix line then (flush streams current, new_stream line)
         else (streams, prop current line))"

definition parse_streams ::
  "string \<Rightarrow> (stream \<Rightarrow> string \<Rightarrow> stream) \<Rightarrow> string \<Rightarrow> stream list" where
  "parse_streams hd_prefix prop txt =
     (let acc = fold (\<lambda>raw acc. parse_line hd_prefix prop acc raw) (splitlines txt)
                  ([], empty_stream)
      in flush (fst acc) (snd acc))"

text \<open>
  The two inventories, from the text the audio server printed. Nothing in the loops
  raises, so the \<^verbatim>\<open>except\<close> branches are never taken.
\<close>

definition list_audio_streams :: "env \<Rightarrow> cmd list \<times> stream list" where
  "list_audio_streams e =
     ([PactlListSinkInputs], parse_streams ''Sink Input #'' sink_property (sink_inputs e))"

definition list_microphone_streams :: "env \<Rightarrow> cmd list \<times> stream list" where
  "list_microphone_streams e =
     ([PactlListSourceOutputs],
      if source_outputs e = [] then []
      else parse_streams ''Source Output #'' source_property (source_outputs e))"

section \<open>Browser registry, \<^verbatim>\<open>Browser.focus\<close> and \<^verbatim>\<open>Switcher.activate\<close>\<close>

text \<open>
  The fields of a \<^verbatim>\<open>Browser\<close> object that \<^verbatim>\<open>focus\<close> reads or writes (\<open>proc_pid\<close> is
  \<^verbatim>\<open>self.pid\<close>), and the two globals: the list \<^verbatim>\<open>browsers\<close> and the list
  \<^verbatim>\<open>browser_windows\<close>.
\<close>

record browser =
  idx :: int
  exe_name :: string
  title :: string
  proc_pid :: "string option"
  window_id :: "string option"

record switcher_state =
  browsers :: "browser list"
  browser_windows :: "string option list"








text \<open>\<^verbatim>\<open>focus_window_by_id(window_id)\<close>\<close>

definition focus_window_by_id :: "env \<Rightarrow> string option \<Rightarrow> cmd list \<times> bool" where
  "focus_window_by_id e w =
     (if \<not> truthy w then ([], False)
      else ([WmctrlFocusId (the w)], focus_ok e (the w)))"

text \<open>
  The strategies of \<^verbatim>\<open>focus\<close>, last first. Each takes the calls made so far and
  gives the calls, the value returned or the exception raised, the object and
  \<^verbatim>\<open>browser_windows\<close> as they are left.
\<close>

type_synonym focus_result = "cmd list \<times> (py_error + bool) \<times> browser \<times> string option list"

definition strategy5 :: "env \<Rightarrow> browser \<Rightarrow> string option list \<Rightarrow> cmd list \<Rightarrow> focus_result" where
  "strategy5 e b bw c =
     (if truthy (window_id b) then
        (c @ [XdotoolActivate (the (window_id b))], Inr (xdotool_runs e), b, bw)
      else (c, Inr False, b, bw))"

text \<open>
  \<^verbatim>\<open>self.window_id = window_id; browser_windows[self.idx-1] = window_id\<close>, then
  \<^verbatim>\<open>focus_window_by_id(window_id)\<close>; \<open>next_strategy\<close> is what runs when the focus fails.
\<close>

definition store_and_focus ::
  "env \<Rightarrow> browser \<Rightarrow> string option list \<Rightarrow> cmd list \<Rightarrow> string option
     \<Rightarrow> (browser \<Rightarrow> string option list \<Rightarrow> cmd list \<Rightarrow> focus_result) \<Rightarrow> focus_result" where
  "store_and_focus e b bw c w next_strategy =
     (let b' = b\<lparr>window_id := w\<rparr>
      in case py_set bw (idx b - 1) w of
           Inl err \<Rightarrow> (c, Inl err, b', bw)
         | Inr bw' \<Rightarrow>
             (let (cf, ok) = focus_window_by_id e w
              in if ok then (c @ cf, Inr True, b', bw') else next_strategy b' bw' (c @ cf)))"

definition strategy4 :: "env \<Rightarrow> browser \<Rightarrow> string option list \<Rightarrow> cmd list \<Rightarrow> focus_result" where
  "strategy4 e b bw c =
     (if lower (exe_name b) \<in> set [''brave'', ''brave-browser''] then
        (let w = window_of_class e ''Brave''; c' = c @ [XpropFindClass ''Brave'']
         in if truthy w then store_and_focus e b bw c' w (strategy5 e)
            else strategy5 e b bw c')
      else strategy5 e b bw c)"

definition strategy3 :: "env \<Rightarrow> browser \<Rightarrow> string option list \<Rightarrow> cmd list \<Rightarrow> focus_result" where
  "strategy3 e b bw c =
     (if truthy (proc_pid b) then
        (let w = window_of_pid e (the (proc_pid b)); c' = c @ [WmctrlFindPid (the (proc_pid b))]
         in if truthy w then store_and_focus e b bw c' w (strategy4 e)
            else strategy4 e b bw c')
      else strategy4 e b bw c)"

definition focus :: "env \<Rightarrow> browser \<Rightarrow> string option list \<Rightarrow> focus_result" where
  "focus e b bw =
     (let (c1, ok1) = focus_window_by_id e (window_id b)
      in if ok1 then (WmctrlList # c1, Inr True, b, bw)
         else
           (let c2 = WmctrlList # c1 @ [WmctrlFocusTitle (title b)]
            in if title_ok e (title b) then (c2, Inr True, b, bw)
               else strategy3 e b bw c2))"

text \<open>
  The part of \<^verbatim>\<open>Switcher.activate\<close> after the focus: the playback inventory is fetched
  and adjusted, then the capture inventory; the value is whether the playback inventory
  had a stream.
\<close>

definition adjust_audio :: "env \<Rightarrow> string option list \<Rightarrow> int \<Rightarrow> cmd list \<times> (py_error + bool)" where
  "adjust_audio e bw num =
     (let (cl, streams) = list_audio_streams e
      in if streams = [] then (cl, Inr False)
         else
           (let (cv, rv) = adjust_stream_volumes e bw num streams
            in case rv of
                 Inl err \<Rightarrow> (cl @ cv, Inl err)
               | Inr adjusted \<Rightarrow>
                   (let (cs, mic_streams) = list_microphone_streams e
                    in if mic_streams = [] then (cl @ cv @ cs, Inr True)
                       else
                         (let (cm, rm) = adjust_microphone_streams e bw num mic_streams
                          in case rm of
                               Inl err \<Rightarrow> (cl @ cv @ cs @ cm, Inl err)
                             | Inr muted \<Rightarrow> (cl @ cv @ cs @ cm, Inr True)))))"

text \<open>
  \<^verbatim>\<open>Switcher.activate(num)\<close>: the calls made, the value returned or the exception
  raised, and the registry as it is left.
\<close>

definition activate ::
  "env \<Rightarrow> int \<Rightarrow> switcher_state \<Rightarrow> cmd list \<times> (py_error + bool) \<times> switcher_state" where
  "activate e num st =
     (if \<not> (1 \<le> num \<and> num \<le> 3) then ([], Inr False, st)
      else
        (case py_get (browsers st) (num - 1) of
           Inl err \<Rightarrow> ([], Inl err, st)
         | Inr b \<Rightarrow>
             (let (cf, rf, b', bw') = focus e b (browser_windows st);
                  st' = \<lparr>browsers = (browsers st)[nat (num - 1) := b'], browser_windows = bw'\<rparr>
              in case rf of
                   Inl err \<Rightarrow> (cf, Inl err, st')
                 | Inr focused \<Rightarrow>
                     (let (ca, ra) = adjust_audio e bw' num in (cf @ ca, ra, st')))))"

section \<open>Specification vocabulary\<close>

text \<open>
  Stage 1 of the attribution, the exact brand match: the browser whose alias the
  application name or the process binary of a stream contains, browser 1 before browser 2
  before browser 3.
\<close>

definition brand_of :: "stream \<Rightarrow> int option" where
  "brand_of s =
     (let app = get_lower (app_name s); binary_l = get_lower (binary s)
      in if any_name_in (browser_names 1) app binary_l then Some 1
         else if any_name_in (browser_names 2) app binary_l then Some 2
         else if any_name_in (browser_names 3) app binary_l then Some 3
         else None)"

text \<open>The stream names an alias of one of the three managed browsers.\<close>

definition names_browser :: "stream \<Rightarrow> bool" where
  "names_browser s = (brand_of s \<noteq> None)"

text \<open>
  A stream that nothing ties to a managed browser: no alias in its application name or
  process binary, and its process id is not the process id of the active browser's window.
\<close>

definition unrecognized :: "string option \<Rightarrow> stream \<Rightarrow> bool" where
  "unrecognized active_pid s =
     (\<not> names_browser s \<and> \<not> (truthy active_pid \<and> pid s = active_pid))"

text \<open>
  The attribution result of the name match: the pairs of a stream id and the browser
  index the stream is given, in the order of the inventory.
\<close>

definition attributed :: "stream list \<Rightarrow> (string \<times> int) list" where
  "attributed streams =
     concat (map (\<lambda>s. case sid s of
                         None \<Rightarrow> []
                       | Some i \<Rightarrow> (case brand_of s of None \<Rightarrow> [] | Some b \<Rightarrow> [(i, b)]))
                 streams)"

definition ids_of_browser :: "int \<Rightarrow> (string \<times> int) list \<Rightarrow> string list" where
  "ids_of_browser b ps = map fst (filter (\<lambda>p. snd p = b) ps)"

definition volume_for :: "int \<Rightarrow> int \<Rightarrow> nat" where
  "volume_for active_idx b = (if b = active_idx then ACTIVE_VOL else INACTIVE_VOL)"

text \<open>The calls of the loop for browser 1 that follows the first pass, when it runs.\<close>

definition fallback_calls :: "int \<Rightarrow> stream list \<Rightarrow> cmd list" where
  "fallback_calls a streams =
     (if a = 1 \<and> ids_of_browser 1 (attributed streams) = [] \<and> streams \<noteq> []
      then unassigned_to_vivaldi (map fst (attributed streams)) streams else [])"

text \<open>
  Every volume-set of the trace \<open>cs\<close> is for the id of a stream of the inventory that
  satisfies \<open>P\<close>.
\<close>

definition touches_only :: "(stream \<Rightarrow> bool) \<Rightarrow> stream list \<Rightarrow> cmd list \<Rightarrow> bool" where
  "touches_only P streams cs =
     list_all (\<lambda>c. case c of
                     PactlSetVol i v \<Rightarrow> list_ex (\<lambda>s. sid s = Some i \<and> P s) streams
                   | _ \<Rightarrow> True) cs"


definition vol_targets :: "cmd list \<Rightarrow> string list" where
  "vol_targets cs = concat (map (\<lambda>c. case c of PactlSetVol i v \<Rightarrow> [i] | _ \<Rightarrow> []) cs)"







text \<open>
  The blocks of a dump, from its stripped lines: a header line (one that starts with
  \<open>hp\<close>) with the lines that follow it up to the next header. The lines before the
  first header belong to no block.
\<close>

fun blocks :: "string \<Rightarrow> string list \<Rightarrow> (string \<times> string list) list" where
  "blocks hp [] = []"
| "blocks hp (l # ls) =
     (if prefix hp l then (l, takeWhile (\<lambda>x. \<not> prefix hp x) ls) # blocks hp ls
      else blocks hp ls)"

text \<open>
  The record of a block: the id of the header, then the property branches \<open>p\<close> of the
  parser on each line of the block in turn.
\<close>

definition block_record :: "(stream \<Rightarrow> string \<Rightarrow> stream) \<Rightarrow> string \<times> string list \<Rightarrow> stream" where
  "block_record p blk = fold (\<lambda>l cur. p cur l) (snd blk) (new_stream (fst blk))"

text \<open>A line with none of the keys the parsers look for.\<close>

definition no_key :: "string \<Rightarrow> bool" where
  "no_key l = (\<not> str_in ''application.name'' l \<and> \<not> str_in ''application.process.binary'' l \<and>
               \<not> str_in ''media.name'' l \<and> \<not> str_in ''application.process.id'' l)"

text \<open>
  The registry as \<^verbatim>\<open>Switcher.__init__\<close> builds it: three browsers with the indices 1, 2
  and 3, and three window slots.
\<close>

definition wf_state :: "switcher_state \<Rightarrow> bool" where
  "wf_state st = (map idx (browsers st) = [1, 2, 3] \<and> length (browser_windows st) = 3)"

text \<open>
  What \<^verbatim>\<open>focus\<close> does to the registry. \<open>focused_directly\<close>: the recorded window id or
  the title brings the window up, and nothing is written. \<open>found_window\<close>: the window
  that the searches by process id and, for Brave, by class leave in the registry (the
  search by class runs when the window found by process id cannot be focused).
\<close>

definition is_brave :: "browser \<Rightarrow> bool" where
  "is_brave b = (lower (exe_name b) \<in> set [''brave'', ''brave-browser''])"

definition focused_directly :: "env \<Rightarrow> browser \<Rightarrow> bool" where
  "focused_directly e b =
     ((truthy (window_id b) \<and> focus_ok e (the (window_id b))) \<or> title_ok e (title b))"

definition found_window :: "env \<Rightarrow> browser \<Rightarrow> string option" where
  "found_window e b =
     (let w3 = (if truthy (proc_pid b) \<and> truthy (window_of_pid e (the (proc_pid b)))
                then window_of_pid e (the (proc_pid b)) else None);
          w4 = (if is_brave b \<and> truthy (window_of_class e ''Brave'')
                then window_of_class e ''Brave'' else None)
      in if w3 \<noteq> None \<and> focus_ok e (the w3) then w3
         else if w4 \<noteq> None then w4
         else w3)"

definition focus_post :: "env \<Rightarrow> browser \<Rightarrow> string option list \<Rightarrow> browser \<times> string option list" where
  "focus_post e b bw =
     (if focused_directly e b then (b, bw)
      else (case found_window e b of
              None \<Rightarrow> (b, bw)
            | Some w \<Rightarrow> (b\<lparr>window_id := Some w\<rparr>,
                         bw[the (py_index (length bw) (idx b - 1)) := Some w])))"

text \<open>The registry after \<^verbatim>\<open>activate(num)\<close> for a valid \<open>num\<close>.\<close>

definition registry_after :: "env \<Rightarrow> int \<Rightarrow> switcher_state \<Rightarrow> switcher_state" where
  "registry_after e num st =
     \<lparr>browsers = (browsers st)[nat (num - 1) :=
                    fst (focus_post e (browsers st ! nat (num - 1)) (browser_windows st))],
      browser_windows = snd (focus_post e (browsers st ! nat (num - 1)) (browser_windows st))\<rparr>"




text \<open>The calls that set a volume or a mute state.\<close>

definition is_set_call :: "cmd \<Rightarrow> bool" where
  "is_set_call c = (case c of PactlSetVol i v \<Rightarrow> True | PactlSetMute i m \<Rightarrow> True | _ \<Rightarrow> False)"

text \<open>A trace without a mute-set.\<close>

definition no_mute :: "cmd list \<Rightarrow> bool" where
  "no_mute cs = list_all (\<lambda>c. case c of PactlSetMute i m \<Rightarrow> False | _ \<Rightarrow> True) cs"

section \<open>Concrete inputs\<close>

text \<open>
  An outside world where no window can be focused or found, every window belongs to
  process 200, and the audio server lists nothing.
\<close>

definition quiet_env :: env where
  "quiet_env =
     \<lparr>focus_ok = (\<lambda>_. False), title_ok = (\<lambda>_. False), window_of_pid = (\<lambda>_. None),
      window_of_class = (\<lambda>_. None), window_pid = (\<lambda>_. Some ''200''), xdotool_runs = True,
      sink_inputs = [], source_outputs = []\<rparr>"

text \<open>A stream with an id and, possibly, an application name, and nothing else.\<close>

definition named_stream :: "string \<Rightarrow> string option \<Rightarrow> stream" where
  "named_stream i a = \<lparr>sid = Some i, app_name = a, binary = None, media_name = None, pid = None\<rparr>"

text \<open>
  The registry before any window was discovered, and after the three windows were
  discovered at launch.
\<close>

definition new_browser :: "int \<Rightarrow> string \<Rightarrow> string \<Rightarrow> browser" where
  "new_browser i exe t = \<lparr>idx = i, exe_name = exe, title = t, proc_pid = None, window_id = None\<rparr>"

definition no_windows :: switcher_state where
  "no_windows =
     \<lparr>browsers = [new_browser 1 ''vivaldi-stable'' ''Browser 1'',
                  new_browser 2 ''google-chrome'' ''Browser 2'',
                  new_browser 3 ''brave-browser'' ''Browser 3''],
      browser_windows = [None, None, None]\<rparr>"

definition launched :: switcher_state where
  "launched =
     \<lparr>browsers = [(new_browser 1 ''vivaldi-stable'' ''Browser 1'')
                    \<lparr>proc_pid := Some ''100'', window_id := Some ''0x1''\<rparr>,
                  (new_browser 2 ''google-chrome'' ''Browser 2'')
                    \<lparr>proc_pid := Some ''200'', window_id := Some ''0x2''\<rparr>,
                  (new_browser 3 ''brave-browser'' ''Browser 3'')
                    \<lparr>proc_pid := Some ''300'', window_id := Some ''0x3''\<rparr>],
      browser_windows = [Some ''0x1'', Some ''0x2'', Some ''0x3'']\<rparr>"



text \<open>
  An outside world where the audio server lists one playback stream, of another
  application, and one where the window of process 100 is now \<^verbatim>\<open>0x9\<close>.
\<close>

definition one_sink_dump :: string where
  "one_sink_dump =
     ''Sink Input #5'' @ [CHR 0x0A] @
     ''    application.name = '' @ [CHR 0x22] @ ''Firefox'' @ [CHR 0x22, CHR 0x0A]"

definition one_sink_env :: env where
  "one_sink_env = quiet_env\<lparr>sink_inputs := one_sink_dump\<rparr>"

definition moved_window_env :: env where
  "moved_window_env = quiet_env\<lparr>window_of_pid := (\<lambda>p. if p = ''100'' then Some ''0x9'' else None)\<rparr>"

definition moved_window_audio_env :: env where
  "moved_window_audio_env = moved_window_env\<lparr>sink_inputs := one_sink_dump\<rparr>"

text \<open>
  A dump of two playback streams, the second with a binary that has no directory, and
  the first of its blocks, the lines stripped.
\<close>

definition two_sink_dump :: string where
  "two_sink_dump =
     ''Sink Input #12'' @ [CHR 0x0A] @
     ''    Driver: protocol-native.c'' @ [CHR 0x0A] @
     ''        application.name = '' @ [CHR 0x22] @ ''Google Chrome'' @ [CHR 0x22, CHR 0x0A] @
     ''        application.process.id = '' @ [CHR 0x22] @ ''4321'' @ [CHR 0x22, CHR 0x0A] @
     ''        application.process.binary = '' @ [CHR 0x22] @ ''/opt/google/chrome/chrome'' @
       [CHR 0x22, CHR 0x0A] @
     ''Sink Input #13'' @ [CHR 0x0A] @
     ''        application.process.binary = '' @ [CHR 0x22] @ ''chrome'' @ [CHR 0x22, CHR 0x0A]"

definition chrome_block :: "string \<times> string list" where
  "chrome_block =
     (''Sink Input #12'',
      [''Driver: protocol-native.c'',
       ''application.name = '' @ [CHR 0x22] @ ''Google Chrome'' @ [CHR 0x22],
       ''application.process.id = '' @ [CHR 0x22] @ ''4321'' @ [CHR 0x22],
       ''application.process.binary = '' @ [CHR 0x22] @ ''/opt/google/chrome/chrome'' @ [CHR 0x22]])"

definition two_sink_env :: env where
  "two_sink_env = quiet_env\<lparr>sink_inputs := two_sink_dump\<rparr>"

section \<open>The first pass is the name match\<close>

text \<open>
  \<^verbatim>\<open>chromium\<close> is one of the names of browser 2, so the two \<^verbatim>\<open>elif\<close> branches of the
  first pass that ask for \<^verbatim>\<open>chromium\<close> (the one for browser 2 active and the one that
  compares process ids) are never reached: the first pass is the name match alone.
\<close>

lemma chromium_is_chrome_alias:
  "str_in ''chromium'' app \<or> str_in ''chromium'' binary_l \<Longrightarrow> any_name_in (browser_names 2) app binary_l"
  by (auto simp: any_name_in_def browser_names_def)

lemma classify_brand:
  "classify active_idx active_pid st i s =
     (brand_of s,
      case brand_of s of
        None \<Rightarrow> st
      | Some b \<Rightarrow>
          if b = 1 then st\<lparr>vivaldi_streams := vivaldi_streams st @ [i]\<rparr>
          else if b = 2 then st\<lparr>chrome_streams := chrome_streams st @ [i]\<rparr>
          else st\<lparr>brave_streams := brave_streams st @ [i]\<rparr>)"
  using chromium_is_chrome_alias[of "get_lower (app_name s)" "get_lower (binary s)"]
  by (auto simp: classify_def brand_of_def Let_def)

lemma first_pass_step_brand:
  "first_pass_step a ap st s =
     (case sid s of
        None \<Rightarrow> st
      | Some i \<Rightarrow>
          (case brand_of s of
             None \<Rightarrow> st
           | Some b \<Rightarrow>
               st\<lparr>vivaldi_streams := vivaldi_streams st @ (if b = 1 then [i] else []),
                  chrome_streams := chrome_streams st @ (if b = 2 then [i] else []),
                  brave_streams := brave_streams st @ (if b \<noteq> 1 \<and> b \<noteq> 2 then [i] else []),
                  browser_stream_ids := browser_stream_ids st @ [i],
                  success := True,
                  calls := calls st @ [PactlSetVol i (volume_for a b)]\<rparr>))"
  by (auto simp: first_pass_step_def classify_brand volume_for_def split: option.splits)

lemma brand_of_range: "brand_of s = Some b \<Longrightarrow> b = 1 \<or> b = 2 \<or> b = 3"
  by (auto simp: brand_of_def Let_def split: if_splits)

lemma first_pass_attributed:
  "first_pass a ap st streams =
     st\<lparr>vivaldi_streams := vivaldi_streams st @ ids_of_browser 1 (attributed streams),
        chrome_streams := chrome_streams st @ ids_of_browser 2 (attributed streams),
        brave_streams := brave_streams st @ ids_of_browser 3 (attributed streams),
        browser_stream_ids := browser_stream_ids st @ map fst (attributed streams),
        success := (success st \<or> attributed streams \<noteq> []),
        calls := calls st @ map (\<lambda>p. PactlSetVol (fst p) (volume_for a (snd p))) (attributed streams)\<rparr>"
proof (induction streams arbitrary: st)
  case Nil
  show ?case by (simp add: first_pass_def attributed_def ids_of_browser_def)
next
  case (Cons s ss)
  have step: "first_pass a ap st (s # ss) = first_pass a ap (first_pass_step a ap st s) ss"
    by (simp add: first_pass_def)
  show ?case
  proof (cases "sid s")
    case None
    then show ?thesis
      unfolding step Cons.IH by (simp add: first_pass_step_brand attributed_def)
  next
    case (Some i)
    show ?thesis
    proof (cases "brand_of s")
      case None
      with Some show ?thesis
        unfolding step Cons.IH by (simp add: first_pass_step_brand attributed_def)
    next
      case (Some b)
      with \<open>sid s = Some i\<close> brand_of_range[OF Some] show ?thesis
        unfolding step Cons.IH
        by (auto simp add: first_pass_step_brand attributed_def ids_of_browser_def)
    qed
  qed
qed
section \<open>Which streams each loop touches\<close>

lemma touches_only_append [simp]:
  "touches_only P streams (cs @ ds) = (touches_only P streams cs \<and> touches_only P streams ds)"
  by (simp add: touches_only_def)

lemma touches_only_Nil [simp]: "touches_only P streams []"
  by (simp add: touches_only_def)

lemma touches_only_SetVol [simp]:
  "touches_only P streams (PactlSetVol i v # cs) =
     ((\<exists>s \<in> set streams. sid s = Some i \<and> P s) \<and> touches_only P streams cs)"
  by (simp add: touches_only_def list_ex_iff)

lemma touches_only_concat:
  "(\<And>s. s \<in> set ss \<Longrightarrow> touches_only P streams (f s)) \<Longrightarrow> touches_only P streams (concat (map f ss))"
  by (induction ss) auto

lemma touches_only_mono:
  assumes "touches_only P streams cs" and "\<And>s. P s \<Longrightarrow> Q s"
  shows "touches_only Q streams cs"
  using assms(1)
proof (induction cs)
  case Nil
  show ?case by simp
next
  case (Cons c cs)
  then have "touches_only Q streams cs" by (simp add: touches_only_def)
  with Cons.prems assms(2) show ?case
    by (cases c) (auto simp: touches_only_def list_ex_iff)
qed

lemma vivaldi_app_alias: "str_in ''vivaldi'' (get_lower (app_name s)) \<Longrightarrow> names_browser s"
  by (simp add: names_browser_def brand_of_def any_name_in_def browser_names_def Let_def)

lemma vivaldi_bin_alias: "str_in ''vivaldi'' (get_lower (binary s)) \<Longrightarrow> names_browser s"
  by (simp add: names_browser_def brand_of_def any_name_in_def browser_names_def Let_def)

lemma chrome_app_alias: "str_in ''chrome'' (get_lower (app_name s)) \<Longrightarrow> names_browser s"
  by (simp add: names_browser_def brand_of_def any_name_in_def browser_names_def Let_def)

lemma chromium_app_alias: "str_in ''chromium'' (get_lower (app_name s)) \<Longrightarrow> names_browser s"
  by (simp add: names_browser_def brand_of_def any_name_in_def browser_names_def Let_def)

lemma google_chrome_app_alias: "str_in ''google chrome'' (get_lower (app_name s)) \<Longrightarrow> names_browser s"
  by (simp add: names_browser_def brand_of_def any_name_in_def browser_names_def Let_def)

lemma attributed_Cons: "attributed (s # ss) = attributed [s] @ attributed ss"
  by (simp add: attributed_def)

lemma attributed_touches:
  "set ss \<subseteq> set streams \<Longrightarrow>
   touches_only names_browser streams
     (map (\<lambda>p. PactlSetVol (fst p) (volume_for a (snd p))) (attributed ss))"
proof (induction ss)
  case Nil
  show ?case by (simp add: attributed_def)
next
  case (Cons s ss)
  then have tl: "touches_only names_browser streams
     (map (\<lambda>p. PactlSetVol (fst p) (volume_for a (snd p))) (attributed ss))" by simp
  from Cons.prems have mem: "s \<in> set streams" by simp
  have hd: "touches_only names_browser streams
     (map (\<lambda>p. PactlSetVol (fst p) (volume_for a (snd p))) (attributed [s]))"
  proof (cases "sid s")
    case None
    then show ?thesis by (simp add: attributed_def)
  next
    case (Some i)
    show ?thesis
    proof (cases "brand_of s")
      case None
      with Some show ?thesis by (simp add: attributed_def)
    next
      case (Some b)
      then have "names_browser s" by (simp add: names_browser_def)
      with Some \<open>sid s = Some i\<close> mem show ?thesis
        by (auto simp: attributed_def)
    qed
  qed
  show ?case unfolding attributed_Cons[of s ss] using hd tl by simp
qed

lemma vivaldi_loop_touches:
  "touches_only names_browser streams (vivaldi_loop streams)"
  unfolding vivaldi_loop_def
proof (rule touches_only_concat)
  fix s assume "s \<in> set streams"
  then show "touches_only names_browser streams
     (case sid s of None \<Rightarrow> []
      | Some i \<Rightarrow> if str_in ''vivaldi'' (get_lower (app_name s)) \<or> str_in ''vivaldi'' (get_lower (binary s))
                  then [PactlSetVol i ACTIVE_VOL] else [])"
    using vivaldi_app_alias[of s] vivaldi_bin_alias[of s]
    by (cases "sid s") auto
qed

lemma pid_loop_touches:
  "truthy ap \<Longrightarrow> touches_only (\<lambda>s. truthy ap \<and> pid s = ap) streams (pid_loop ap streams)"
  unfolding pid_loop_def
proof (rule touches_only_concat)
  fix s assume "truthy ap" "s \<in> set streams"
  then show "touches_only (\<lambda>s. truthy ap \<and> pid s = ap) streams
     (case sid s of None \<Rightarrow> [] | Some i \<Rightarrow> if pid s = ap then [PactlSetVol i ACTIVE_VOL] else [])"
    by (cases "sid s") auto
qed

lemma google_chrome_loop_touches:
  "touches_only names_browser streams (google_chrome_loop streams)"
  unfolding google_chrome_loop_def
proof (rule touches_only_concat)
  fix s assume "s \<in> set streams"
  then show "touches_only names_browser streams
     (case sid s of None \<Rightarrow> []
      | Some i \<Rightarrow> if str_in ''google chrome'' (get_lower (app_name s))
                  then [PactlSetVol i ACTIVE_VOL] else [])"
    using google_chrome_app_alias[of s]
    by (cases "sid s") auto
qed

lemma chromium_loop_touches:
  "set ss \<subseteq> set streams \<Longrightarrow> touches_only names_browser streams (chromium_loop found ss)"
proof (induction ss arbitrary: found)
  case Nil
  show ?case by simp
next
  case (Cons s ss)
  then have IH: "\<And>f. touches_only names_browser streams (chromium_loop f ss)" by simp
  from Cons.prems have mem: "s \<in> set streams" by simp
  show ?case
  proof (cases "sid s")
    case None
    then show ?thesis using IH by simp
  next
    case (Some i)
    have ok: "str_in ''chromium'' (get_lower (app_name s)) \<or> str_in ''chrome'' (get_lower (app_name s))
          \<Longrightarrow> \<exists>s' \<in> set streams. sid s' = Some i \<and> names_browser s'"
      using mem Some chromium_app_alias[of s] chrome_app_alias[of s] by blast
    show ?thesis
      using Some IH ok by (simp add: Let_def)
  qed
qed

lemma chromium_inactive_touches:
  "set ss \<subseteq> set streams \<Longrightarrow>
   snd (chromium_inactive (Some ap) ss) = None \<and>
   touches_only names_browser streams (fst (chromium_inactive (Some ap) ss))"
proof (induction ss)
  case Nil
  show ?case by simp
next
  case (Cons s ss)
  then have IH: "snd (chromium_inactive (Some ap) ss) = None"
     "touches_only names_browser streams (fst (chromium_inactive (Some ap) ss))" by simp_all
  from Cons.prems have mem: "s \<in> set streams" by simp
  show ?case
  proof (cases "sid s")
    case None
    then show ?thesis using IH by simp
  next
    case (Some i)
    have ok: "str_in ''chromium'' (get_lower (app_name s))
          \<Longrightarrow> \<exists>s' \<in> set streams. sid s' = Some i \<and> names_browser s'"
      using mem Some chromium_app_alias[of s] by blast
    show ?thesis
      using Some IH ok by (simp add: Let_def split_beta)
  qed
qed

lemma attributed_mem:
  "s \<in> set streams \<Longrightarrow> sid s = Some i \<Longrightarrow> brand_of s = Some b \<Longrightarrow> (i, b) \<in> set (attributed streams)"
  by (induction streams) (auto simp: attributed_def)

lemma last_resort_bound:
  "snd (last_resort (Some ap) streams) = None \<and>
   touches_only (\<lambda>s. \<not> unrecognized ap s) streams (fst (last_resort (Some ap) streams))"
proof -
  have v: "touches_only (\<lambda>s. \<not> unrecognized ap s) streams (vivaldi_loop streams)"
    by (rule touches_only_mono[OF vivaldi_loop_touches]) (simp add: unrecognized_def)
  have p: "truthy ap \<Longrightarrow> touches_only (\<lambda>s. \<not> unrecognized ap s) streams (pid_loop ap streams)"
    by (rule touches_only_mono[OF pid_loop_touches]) (simp_all add: unrecognized_def)
  have c: "touches_only (\<lambda>s. \<not> unrecognized ap s) streams (chromium_loop False streams)"
    by (rule touches_only_mono[OF chromium_loop_touches]) (simp_all add: unrecognized_def)
  show ?thesis
    using v p c by (simp add: last_resort_def Let_def)
qed

lemma special_browser2_bound:
  "snd (special_browser2 (Some ap) streams) = None \<and>
   touches_only (\<lambda>s. \<not> unrecognized ap s) streams (fst (special_browser2 (Some ap) streams))"
proof -
  have ci: "snd (chromium_inactive (Some ap) streams) = None"
    and ct: "touches_only names_browser streams (fst (chromium_inactive (Some ap) streams))"
    using chromium_inactive_touches[of streams streams ap] by simp_all
  have c: "touches_only (\<lambda>s. \<not> unrecognized ap s) streams (fst (chromium_inactive (Some ap) streams))"
    by (rule touches_only_mono[OF ct]) (simp add: unrecognized_def)
  have g: "touches_only (\<lambda>s. \<not> unrecognized ap s) streams (google_chrome_loop streams)"
    by (rule touches_only_mono[OF google_chrome_loop_touches]) (simp add: unrecognized_def)
  obtain cs where eq: "chromium_inactive (Some ap) streams = (cs, None)"
    using ci by (cases "chromium_inactive (Some ap) streams") simp
  show ?thesis
    using c g eq by (simp add: special_browser2_def)
qed

lemma touches_only_XpropPid [simp]:
  "touches_only P streams (XpropPid w # cs) = touches_only P streams cs"
  by (simp add: touches_only_def)

lemma first_attempt_matched:
  assumes "attributed streams \<noteq> []"
    and "active_idx = 1 \<Longrightarrow> ids_of_browser 1 (attributed streams) \<noteq> []"
  shows "first_attempt e active_idx w streams =
           (window_pid e w,
            \<lparr>vivaldi_streams = ids_of_browser 1 (attributed streams),
             chrome_streams = ids_of_browser 2 (attributed streams),
             brave_streams = ids_of_browser 3 (attributed streams),
             browser_stream_ids = map fst (attributed streams),
             success = True,
             calls = XpropPid w #
                     map (\<lambda>p. PactlSetVol (fst p) (volume_for active_idx (snd p)))
                         (attributed streams)\<rparr>)"
proof (cases "active_idx = 1")
  case True
  with assms show ?thesis by (simp add: first_attempt_def Let_def first_pass_attributed)
next
  case False
  with assms(1) show ?thesis by (simp add: first_attempt_def Let_def first_pass_attributed)
qed







lemma vol_targets_append [simp]: "vol_targets (cs @ ds) = vol_targets cs @ vol_targets ds"
  by (simp add: vol_targets_def)

lemma vol_targets_attributed [simp]:
  "vol_targets (map (\<lambda>p. PactlSetVol (fst p) (f p)) A) = map fst A"
  by (induction A) (simp_all add: vol_targets_def)



lemma first_attempt_state:
  "snd (first_attempt e a w streams) =
     \<lparr>vivaldi_streams = ids_of_browser 1 (attributed streams),
      chrome_streams = ids_of_browser 2 (attributed streams),
      brave_streams = ids_of_browser 3 (attributed streams),
      browser_stream_ids = map fst (attributed streams),
      success = (attributed streams \<noteq> [] \<or> fallback_calls a streams \<noteq> []),
      calls = XpropPid w #
              map (\<lambda>p. PactlSetVol (fst p) (volume_for a (snd p))) (attributed streams) @
              fallback_calls a streams\<rparr>"
  by (cases "a = 1"; cases "ids_of_browser 1 (attributed streams) = []"; cases "streams = []";
      simp add: first_attempt_def Let_def first_pass_attributed fallback_calls_def)

section \<open>Playback attribution: the claims\<close>

text \<open>
  Claim C2 says that \<^verbatim>\<open>adjust_stream_volumes\<close> returns a boolean and never raises, for
  every inventory, every active index and every registry state. With the window of
  browser 1 never discovered and one stream whose name says nothing, the aggressive
  approach sets the stream to the inactive volume and the last resort then reads the
  local variable \<^verbatim>\<open>active_pid\<close>, which only the first attempt assigns: the call raises
  \<^verbatim>\<open>UnboundLocalError\<close>.
\<close>

theorem unbound_active_pid_raises:
  "adjust_stream_volumes quiet_env [None, None, None] 1 [named_stream ''5'' None] =
     ([PactlSetVol ''5'' INACTIVE_VOL], Inl UnboundLocalError)"
  by code_simp

text \<open>
  When the window of the active browser is known, \<^verbatim>\<open>active_pid\<close> is bound and the call
  returns.
\<close>

lemma adjust_stream_volumes_returns:
  assumes "registered_window bw active_idx = Inr (Some w)"
  shows "\<exists>r. snd (adjust_stream_volumes e bw active_idx streams) = Inr r"
proof -
  obtain ap st where fa: "first_attempt e active_idx w streams = (ap, st)"
    by (cases "first_attempt e active_idx w streams")
  obtain c3 where c3: "last_resort (Some ap) streams = (c3, None)"
    using last_resort_bound[of ap streams] by (cases "last_resort (Some ap) streams") auto
  obtain c4 where c4: "special_browser2 (Some ap) streams = (c4, None)"
    using special_browser2_bound[of ap streams] by (cases "special_browser2 (Some ap) streams") auto
  show ?thesis
    by (auto simp: adjust_stream_volumes_def assms fa c3 c4 Let_def)
qed

text \<open>
  Claim C1, as amended: for every playback inventory and every active index in 1, 2, 3,
  when the window of the active browser is known and the name match finds a stream (a
  stream of browser 1 when browser 1 is active, of any managed browser otherwise), the
  call returns true and every volume-set it issues is for a stream that names a managed
  browser or belongs to the process of the active window: a stream with no alias in its
  application name and process binary and with another process id gets no volume-set.
\<close>

theorem unmanaged_untouched_after_match:
  assumes idx: "active_idx \<in> {1, 2, 3}"
    and win: "registered_window bw active_idx = Inr (Some w)"
    and hit: "\<exists>s \<in> set streams. sid s \<noteq> None \<and>
                (if active_idx = 1 then brand_of s = Some 1 else names_browser s)"
  shows "snd (adjust_stream_volumes e bw active_idx streams) = Inr True \<and>
         touches_only (\<lambda>s. \<not> unrecognized (window_pid e w) s) streams
           (fst (adjust_stream_volumes e bw active_idx streams))"
proof -
  let ?ap = "window_pid e w"
  let ?P = "\<lambda>s. \<not> unrecognized ?ap s"
  from hit obtain s i where s: "s \<in> set streams" "sid s = Some i"
    and b: "if active_idx = 1 then brand_of s = Some 1 else names_browser s" by auto
  from b obtain k where k: "brand_of s = Some k" "active_idx = 1 \<Longrightarrow> k = 1"
    by (cases "active_idx = 1") (auto simp: names_browser_def)
  have mem: "(i, k) \<in> set (attributed streams)" by (rule attributed_mem[OF s k(1)])
  then have ne: "attributed streams \<noteq> []" by auto
  have ne1: "active_idx = 1 \<Longrightarrow> ids_of_browser 1 (attributed streams) \<noteq> []"
  proof -
    assume "active_idx = 1"
    with k mem have "(i, 1) \<in> set (attributed streams)" by simp
    then have "i \<in> set (ids_of_browser 1 (attributed streams))"
      unfolding ids_of_browser_def by force
    then show ?thesis by auto
  qed
  have sne: "streams \<noteq> []" using s by auto
  note fa = first_attempt_matched[OF ne ne1, where e = e and w = w]
  have t1: "touches_only ?P streams
              (map (\<lambda>p. PactlSetVol (fst p) (volume_for active_idx (snd p))) (attributed streams))"
    by (rule touches_only_mono[OF attributed_touches]) (simp_all add: unrecognized_def)
  have x: "touches_only ?P streams [XpropPid w]" by (simp add: touches_only_def)
  note lr = last_resort_bound[of ?ap streams]
  note sp = special_browser2_bound[of ?ap streams]
  obtain c3 where c3: "last_resort (Some ?ap) streams = (c3, None)" "touches_only ?P streams c3"
    using lr by (cases "last_resort (Some ?ap) streams") auto
  obtain c4 where c4: "special_browser2 (Some ?ap) streams = (c4, None)" "touches_only ?P streams c4"
    using sp by (cases "special_browser2 (Some ?ap) streams") auto
  show ?thesis
    using idx t1 c3 c4 sne
    by (auto simp: adjust_stream_volumes_def win fa)
qed

theorem unmanaged_untouched_after_match_witness:
  "registered_window [None, None, Some ''0x3''] 3 = Inr (Some ''0x3'') \<and>
   names_browser (named_stream ''8'' (Some ''Brave'')) \<and>
   unrecognized (window_pid quiet_env ''0x3'') (named_stream ''7'' (Some ''Firefox'')) \<and>
   snd (adjust_stream_volumes quiet_env [None, None, Some ''0x3''] 3
          [named_stream ''7'' (Some ''Firefox''), named_stream ''8'' (Some ''Brave'')]) = Inr True \<and>
   touches_only (\<lambda>s. \<not> unrecognized (window_pid quiet_env ''0x3'') s)
     [named_stream ''7'' (Some ''Firefox''), named_stream ''8'' (Some ''Brave'')]
     (fst (adjust_stream_volumes quiet_env [None, None, Some ''0x3''] 3
             [named_stream ''7'' (Some ''Firefox''), named_stream ''8'' (Some ''Brave'')]))"
proof -
  have idx: "(3::int) \<in> {1, 2, 3}" by simp
  have win: "registered_window [None, None, Some ''0x3''] 3 = Inr (Some ''0x3'')"
    by code_simp
  have brave: "names_browser (named_stream ''8'' (Some ''Brave''))"
    by code_simp
  have firefox: "unrecognized (window_pid quiet_env ''0x3'') (named_stream ''7'' (Some ''Firefox''))"
    by code_simp
  have hit: "\<exists>s \<in> set [named_stream ''7'' (Some ''Firefox''), named_stream ''8'' (Some ''Brave'')].
               sid s \<noteq> None \<and> (if (3::int) = 1 then brand_of s = Some 1 else names_browser s)"
    using brave by (simp add: named_stream_def)
  from unmanaged_untouched_after_match[OF idx win hit, of quiet_env] win brave firefox
  show ?thesis by simp
qed

text \<open>
  Claim C1 as the specification states it fails: with the window of browser 3 known and
  one stream of another application, the name match finds nothing, and the aggressive
  approach sets the stream to the inactive volume.
\<close>

theorem unmanaged_stream_attenuated:
  "unrecognized (window_pid quiet_env ''0x3'') (named_stream ''7'' (Some ''Firefox'')) \<and>
   adjust_stream_volumes quiet_env [None, None, Some ''0x3''] 3
     [named_stream ''7'' (Some ''Firefox'')] =
     ([XpropPid ''0x3'', PactlSetVol ''7'' INACTIVE_VOL], Inr True)"
  by code_simp

text \<open>
  Claim C3, as amended: when the inventory is two streams whose application names
  contain \<^verbatim>\<open>chromium\<close> and neither of which carries a process id, browser 2 is active
  and its window is known, neither stream is left unmanaged: a stream whose application
  name or process binary contains a name of browser 1 is classified to browser 1 and set
  to the inactive volume by the name match, and every other one is classified to
  browser 2 and set to the active volume, so that both are classified to browser 2 when
  neither names browser 1. The special case of browser 2 then sets each stream whose
  application name does not contain \<^verbatim>\<open>google chrome\<close> to the inactive volume, and after that
  each stream whose application name contains \<^verbatim>\<open>google chrome\<close> to the active volume. The
  call returns true.
\<close>

theorem two_chromium_streams_browser2:
  assumes win: "registered_window bw 2 = Inr (Some w)"
    and s1: "sid s1 = Some i1" "str_in ''chromium'' (get_lower (app_name s1))" "pid s1 = None"
    and s2: "sid s2 = Some i2" "str_in ''chromium'' (get_lower (app_name s2))" "pid s2 = None"
  shows "browser_stream_ids (snd (first_attempt e 2 w [s1, s2])) = [i1, i2] \<and>
         vivaldi_streams (snd (first_attempt e 2 w [s1, s2])) =
           (if any_name_in (browser_names 1) (get_lower (app_name s1)) (get_lower (binary s1))
            then [i1] else []) @
           (if any_name_in (browser_names 1) (get_lower (app_name s2)) (get_lower (binary s2))
            then [i2] else []) \<and>
         chrome_streams (snd (first_attempt e 2 w [s1, s2])) =
           (if any_name_in (browser_names 1) (get_lower (app_name s1)) (get_lower (binary s1))
            then [] else [i1]) @
           (if any_name_in (browser_names 1) (get_lower (app_name s2)) (get_lower (binary s2))
            then [] else [i2]) \<and>
         brave_streams (snd (first_attempt e 2 w [s1, s2])) = [] \<and>
         adjust_stream_volumes e bw 2 [s1, s2] =
           ([XpropPid w,
             PactlSetVol i1
               (if any_name_in (browser_names 1) (get_lower (app_name s1)) (get_lower (binary s1))
                then INACTIVE_VOL else ACTIVE_VOL),
             PactlSetVol i2
               (if any_name_in (browser_names 1) (get_lower (app_name s2)) (get_lower (binary s2))
                then INACTIVE_VOL else ACTIVE_VOL)] @
            (if str_in ''google chrome'' (get_lower (app_name s1))
             then [] else [PactlSetVol i1 INACTIVE_VOL]) @
            (if str_in ''google chrome'' (get_lower (app_name s2))
             then [] else [PactlSetVol i2 INACTIVE_VOL]) @
            (if str_in ''google chrome'' (get_lower (app_name s1))
             then [PactlSetVol i1 ACTIVE_VOL] else []) @
            (if str_in ''google chrome'' (get_lower (app_name s2))
             then [PactlSetVol i2 ACTIVE_VOL] else []),
            Inr True)"
proof -
  let ?st = "snd (first_attempt e 2 w [s1, s2])"
  have b1: "brand_of s1 = Some (if any_name_in (browser_names 1) (get_lower (app_name s1)) (get_lower (binary s1)) then 1 else 2)"
    using s1 chromium_is_chrome_alias[of "get_lower (app_name s1)"]
    by (simp add: brand_of_def Let_def)
  have b2: "brand_of s2 = Some (if any_name_in (browser_names 1) (get_lower (app_name s2)) (get_lower (binary s2)) then 1 else 2)"
    using s2 chromium_is_chrome_alias[of "get_lower (app_name s2)"]
    by (simp add: brand_of_def Let_def)
  define c1 :: int where
    "c1 = (if any_name_in (browser_names 1) (get_lower (app_name s1)) (get_lower (binary s1)) then 1 else 2)"
  define c2 :: int where
    "c2 = (if any_name_in (browser_names 1) (get_lower (app_name s2)) (get_lower (binary s2)) then 1 else 2)"
  have c1: "brand_of s1 = Some c1" "c1 = 1 \<or> c1 = 2" using b1 by (simp_all add: c1_def)
  have c2: "brand_of s2 = Some c2" "c2 = 1 \<or> c2 = 2" using b2 by (simp_all add: c2_def)
  have A: "attributed [s1, s2] = [(i1, c1), (i2, c2)]"
    using s1(1) s2(1) c1(1) c2(1) by (simp add: attributed_def)
  have st: "?st =
      \<lparr>vivaldi_streams = (if c1 = 1 then [i1] else []) @ (if c2 = 1 then [i2] else []),
       chrome_streams = (if c1 = 2 then [i1] else []) @ (if c2 = 2 then [i2] else []),
       brave_streams = [],
       browser_stream_ids = [i1, i2], success = True,
       calls = [XpropPid w, PactlSetVol i1 (if c1 = 2 then ACTIVE_VOL else INACTIVE_VOL),
                PactlSetVol i2 (if c2 = 2 then ACTIVE_VOL else INACTIVE_VOL)]\<rparr>"
    using c1(2) c2(2)
    by (auto simp add: first_attempt_state A ids_of_browser_def volume_for_def fallback_calls_def)
  have ap: "fst (first_attempt e 2 w [s1, s2]) = window_pid e w"
    by (simp add: first_attempt_def Let_def)
  obtain stv where fa: "first_attempt e 2 w [s1, s2] = (window_pid e w, stv)" and stv: "stv = ?st"
    using ap by (cases "first_attempt e 2 w [s1, s2]") simp
  have ci: "chromium_inactive (Some (window_pid e w)) [s1, s2] =
      ((if str_in ''google chrome'' (get_lower (app_name s1)) then [] else [PactlSetVol i1 INACTIVE_VOL]) @
       (if str_in ''google chrome'' (get_lower (app_name s2)) then [] else [PactlSetVol i2 INACTIVE_VOL]), None)"
    using s1 s2 by (simp add: Let_def truthy_def split: option.splits)
  have g: "google_chrome_loop [s1, s2] =
       (if str_in ''google chrome'' (get_lower (app_name s1)) then [PactlSetVol i1 ACTIVE_VOL] else []) @
       (if str_in ''google chrome'' (get_lower (app_name s2)) then [PactlSetVol i2 ACTIVE_VOL] else [])"
    using s1 s2 by (simp add: google_chrome_loop_def)
  have sp: "special_browser2 (Some (window_pid e w)) [s1, s2] =
      ((if str_in ''google chrome'' (get_lower (app_name s1)) then [] else [PactlSetVol i1 INACTIVE_VOL]) @
       (if str_in ''google chrome'' (get_lower (app_name s2)) then [] else [PactlSetVol i2 INACTIVE_VOL]) @
       (if str_in ''google chrome'' (get_lower (app_name s1)) then [PactlSetVol i1 ACTIVE_VOL] else []) @
       (if str_in ''google chrome'' (get_lower (app_name s2)) then [PactlSetVol i2 ACTIVE_VOL] else []), None)"
    unfolding special_browser2_def ci g by simp
  have call: "adjust_stream_volumes e bw 2 [s1, s2] =
           (calls ?st @ fst (special_browser2 (Some (window_pid e w)) [s1, s2]), Inr True)"
  proof -
    have suc: "success stv" using stv st by simp
    show ?thesis using stv suc by (simp add: adjust_stream_volumes_def win fa sp)
  qed
  show ?thesis
    unfolding call sp by (simp add: st c1_def c2_def)
qed

theorem two_chromium_streams_browser2_witness:
  "adjust_stream_volumes quiet_env [None, Some ''0x2'', None] 2
     [named_stream ''5'' (Some ''Chromium''), named_stream ''6'' (Some ''chromium'')] =
     ([XpropPid ''0x2'', PactlSetVol ''5'' ACTIVE_VOL, PactlSetVol ''6'' ACTIVE_VOL,
       PactlSetVol ''5'' INACTIVE_VOL, PactlSetVol ''6'' INACTIVE_VOL], Inr True) \<and>
   chrome_streams (snd (first_attempt quiet_env 2 ''0x2''
     [named_stream ''5'' (Some ''Chromium''), named_stream ''6'' (Some ''chromium'')])) =
     [''5'', ''6''] \<and>
   vivaldi_streams (snd (first_attempt quiet_env 2 ''0x2''
     [(named_stream ''5'' (Some ''Chromium''))\<lparr>binary := Some ''vivaldi-bin''\<rparr>,
      named_stream ''6'' (Some ''chromium'')])) = [''5''] \<and>
   chrome_streams (snd (first_attempt quiet_env 2 ''0x2''
     [(named_stream ''5'' (Some ''Chromium''))\<lparr>binary := Some ''vivaldi-bin''\<rparr>,
      named_stream ''6'' (Some ''chromium'')])) = [''6''] \<and>
   adjust_stream_volumes quiet_env [None, Some ''0x2'', None] 2
     [(named_stream ''5'' (Some ''Chromium''))\<lparr>binary := Some ''vivaldi-bin''\<rparr>,
      named_stream ''6'' (Some ''chromium'')] =
     ([XpropPid ''0x2'', PactlSetVol ''5'' INACTIVE_VOL, PactlSetVol ''6'' ACTIVE_VOL,
       PactlSetVol ''5'' INACTIVE_VOL, PactlSetVol ''6'' INACTIVE_VOL], Inr True)"
proof -
  let ?a = "named_stream ''5'' (Some ''Chromium'')"
  let ?v = "(named_stream ''5'' (Some ''Chromium''))\<lparr>binary := Some ''vivaldi-bin''\<rparr>"
  let ?b = "named_stream ''6'' (Some ''chromium'')"
  have win: "registered_window [None, Some ''0x2'', None] 2 = Inr (Some ''0x2'')"
    by code_simp
  have a: "sid ?a = Some ''5''" "str_in ''chromium'' (get_lower (app_name ?a))" "pid ?a = None"
    by code_simp+
  have v: "sid ?v = Some ''5''" "str_in ''chromium'' (get_lower (app_name ?v))" "pid ?v = None"
    by code_simp+
  have b: "sid ?b = Some ''6''" "str_in ''chromium'' (get_lower (app_name ?b))" "pid ?b = None"
    by code_simp+
  have na: "\<not> any_name_in (browser_names 1) (get_lower (app_name ?a)) (get_lower (binary ?a))"
    "\<not> str_in ''google chrome'' (get_lower (app_name ?a))"
    by code_simp+
  have nv: "any_name_in (browser_names 1) (get_lower (app_name ?v)) (get_lower (binary ?v))"
    "\<not> str_in ''google chrome'' (get_lower (app_name ?v))"
    by code_simp+
  have nb: "\<not> any_name_in (browser_names 1) (get_lower (app_name ?b)) (get_lower (binary ?b))"
    "\<not> str_in ''google chrome'' (get_lower (app_name ?b))"
    by code_simp+
  note plain = two_chromium_streams_browser2[OF win a b, of quiet_env]
  note mixed = two_chromium_streams_browser2[OF win v b, of quiet_env]
  have p: "adjust_stream_volumes quiet_env [None, Some ''0x2'', None] 2 [?a, ?b] =
     ([XpropPid ''0x2'', PactlSetVol ''5'' ACTIVE_VOL, PactlSetVol ''6'' ACTIVE_VOL,
       PactlSetVol ''5'' INACTIVE_VOL, PactlSetVol ''6'' INACTIVE_VOL], Inr True)"
    "chrome_streams (snd (first_attempt quiet_env 2 ''0x2'' [?a, ?b])) = [''5'', ''6'']"
    using plain na nb by simp_all
  have m: "vivaldi_streams (snd (first_attempt quiet_env 2 ''0x2'' [?v, ?b])) = [''5'']"
    "chrome_streams (snd (first_attempt quiet_env 2 ''0x2'' [?v, ?b])) = [''6'']"
    "adjust_stream_volumes quiet_env [None, Some ''0x2'', None] 2 [?v, ?b] =
     ([XpropPid ''0x2'', PactlSetVol ''5'' INACTIVE_VOL, PactlSetVol ''6'' ACTIVE_VOL,
       PactlSetVol ''5'' INACTIVE_VOL, PactlSetVol ''6'' INACTIVE_VOL], Inr True)"
    using mixed nv nb by simp_all
  from p m show ?thesis by blast
qed

text \<open>
  Claim C3 as the specification states it fails: in its scenario both streams are put on
  the list of browser 2, and both get volume-sets.
\<close>

theorem two_chromium_streams_both_assigned:
  "chrome_streams (snd (first_attempt quiet_env 2 ''0x2''
      [named_stream ''5'' (Some ''chromium''), named_stream ''6'' (Some ''chromium'')])) =
     [''5'', ''6''] \<and>
   vol_targets (fst (adjust_stream_volumes quiet_env [None, Some ''0x2'', None] 2
      [named_stream ''5'' (Some ''chromium''), named_stream ''6'' (Some ''chromium'')])) =
     [''5'', ''6'', ''5'', ''6'']"
  by code_simp





lemma vol_targets_XpropPid [simp]: "vol_targets (XpropPid w # cs) = vol_targets cs"
  by (simp add: vol_targets_def)

lemma vol_targets_Nil [simp]: "vol_targets [] = []"
  by (simp add: vol_targets_def)






section \<open>Capture attribution: the fallback of browser 1\<close>





lemma fallback_loop_lists:
  "browser_mic_streams (fallback_loop cs st) = browser_mic_streams st \<and>
   chromium_streams (fallback_loop cs st) = chromium_streams st"
  by (cases cs) simp_all











section \<open>The focus step and the registry\<close>

lemma truthy_Some: "truthy w \<Longrightarrow> \<exists>v. w = Some v \<and> v \<noteq> []"
  by (cases w) (simp_all add: truthy_def)

lemma set_calls_append [simp]:
  "filter is_set_call (c @ d) = filter is_set_call c @ filter is_set_call d"
  by simp

lemma strategy5_post:
  "\<exists>c' ok. strategy5 e b bw c = (c', Inr ok, b, bw) \<and> filter is_set_call c' = filter is_set_call c"
  by (auto simp: strategy5_def is_set_call_def)

lemma strategy4_post:
  assumes "py_index (length bw) (idx b - 1) = Some k"
  shows "\<exists>c' ok. strategy4 e b bw c =
           (c', Inr ok,
            if is_brave b \<and> truthy (window_of_class e ''Brave'')
            then (b\<lparr>window_id := window_of_class e ''Brave''\<rparr>, bw[k := window_of_class e ''Brave''])
            else (b, bw)) \<and> filter is_set_call c' = filter is_set_call c"
proof -
  let ?w4 = "window_of_class e ''Brave''"
  let ?c = "c @ [XpropFindClass ''Brave'']"
  obtain c1 ok1 where a: "strategy5 e b bw c = (c1, Inr ok1, b, bw)"
    "filter is_set_call c1 = filter is_set_call c"
    using strategy5_post[of e b bw c] by blast
  obtain c2 ok2 where b: "strategy5 e b bw ?c = (c2, Inr ok2, b, bw)"
    "filter is_set_call c2 = filter is_set_call ?c"
    using strategy5_post[of e b bw ?c] by blast
  obtain c3 ok3 where c: "strategy5 e (b\<lparr>window_id := ?w4\<rparr>) (bw[k := ?w4]) (?c @ [WmctrlFocusId (the ?w4)]) =
       (c3, Inr ok3, b\<lparr>window_id := ?w4\<rparr>, bw[k := ?w4])"
    "filter is_set_call c3 = filter is_set_call (?c @ [WmctrlFocusId (the ?w4)])"
    using strategy5_post[of e "b\<lparr>window_id := ?w4\<rparr>" "bw[k := ?w4]" "?c @ [WmctrlFocusId (the ?w4)]"] by blast
  show ?thesis
    using assms a b c
    by (auto simp: strategy4_def is_brave_def store_and_focus_def py_set_def Let_def
                   focus_window_by_id_def is_set_call_def)
qed

lemma strategy3_post:
  assumes "py_index (length bw) (idx b - 1) = Some k"
  shows "\<exists>c' ok. strategy3 e b bw c =
           (c', Inr ok,
            case found_window e b of
              None \<Rightarrow> (b, bw)
            | Some w \<Rightarrow> (b\<lparr>window_id := Some w\<rparr>, bw[k := Some w])) \<and>
           filter is_set_call c' = filter is_set_call c"
proof -
  let ?w3 = "window_of_pid e (the (proc_pid b))"
  let ?w4 = "window_of_class e ''Brave''"
  let ?b3 = "b\<lparr>window_id := ?w3\<rparr>"
  let ?c = "c @ [WmctrlFindPid (the (proc_pid b))]"
  have k3: "py_index (length (bw[k := ?w3])) (idx ?b3 - 1) = Some k" using assms by simp
  have br: "is_brave ?b3 = is_brave b" by (simp add: is_brave_def)
  note s4 = strategy4_post[OF assms, of e] strategy4_post[OF k3, of e, unfolded br]
  show ?thesis
  proof (cases "truthy (proc_pid b) \<and> truthy ?w3")
    case False
    obtain c' ok where "strategy4 e b bw c = (c', Inr ok,
            if is_brave b \<and> truthy ?w4 then (b\<lparr>window_id := ?w4\<rparr>, bw[k := ?w4]) else (b, bw))"
      "filter is_set_call c' = filter is_set_call c"
      using s4(1)[of c] by blast
    moreover obtain c'' ok' where "strategy4 e b bw ?c = (c'', Inr ok',
            if is_brave b \<and> truthy ?w4 then (b\<lparr>window_id := ?w4\<rparr>, bw[k := ?w4]) else (b, bw))"
      "filter is_set_call c'' = filter is_set_call ?c"
      using s4(1)[of ?c] by blast
    ultimately show ?thesis
      using False
      by (auto simp: strategy3_def found_window_def Let_def is_set_call_def dest!: truthy_Some)
  next
    case True
    then obtain v where v: "?w3 = Some v" "v \<noteq> []" by (auto dest!: truthy_Some)
    obtain c'' ok' where s: "strategy4 e ?b3 (bw[k := ?w3]) (?c @ [WmctrlFocusId v]) = (c'', Inr ok',
            if is_brave b \<and> truthy ?w4 then (?b3\<lparr>window_id := ?w4\<rparr>, bw[k := ?w3, k := ?w4])
            else (?b3, bw[k := ?w3]))"
      "filter is_set_call c'' = filter is_set_call (?c @ [WmctrlFocusId v])"
      using s4(2)[of "?c @ [WmctrlFocusId v]"] by blast
    show ?thesis
      using True v s assms
      by (auto simp: strategy3_def found_window_def Let_def store_and_focus_def py_set_def
                     focus_window_by_id_def truthy_def is_set_call_def
               dest!: truthy_Some)
  qed
qed

lemma focus_post_eq:
  assumes "py_index (length bw) (idx b - 1) = Some k"
  shows "\<exists>c ok. focus e b bw = (c, Inr ok, focus_post e b bw) \<and> filter is_set_call c = []"
proof (cases "focused_directly e b")
  case True
  then show ?thesis
    by (auto simp: focus_def focus_post_def focused_directly_def focus_window_by_id_def Let_def
                   is_set_call_def)
next
  case False
  let ?c = "WmctrlList # fst (focus_window_by_id e (window_id b)) @ [WmctrlFocusTitle (title b)]"
  obtain c' ok where "strategy3 e b bw ?c =
      (c', Inr ok, case found_window e b of None \<Rightarrow> (b, bw)
            | Some w \<Rightarrow> (b\<lparr>window_id := Some w\<rparr>, bw[k := Some w]))"
      "filter is_set_call c' = filter is_set_call ?c"
    using strategy3_post[OF assms, of e] by blast
  moreover have kk: "the (py_index (length bw) (idx b - 1)) = k" using assms by simp
  ultimately show ?thesis
    using False unfolding focus_post_def kk
    by (auto simp: focus_def focused_directly_def focus_window_by_id_def Let_def is_set_call_def
             split: prod.splits)
qed

lemma found_window_update [simp]: "found_window e (b\<lparr>window_id := w\<rparr>) = found_window e b"
  by (simp add: found_window_def is_brave_def)

lemma focus_post_idem:
  assumes "focus_post e b bw = (b', bw')"
  shows "focus_post e b' bw' = (b', bw')"
  using assms
  by (auto simp: focus_post_def focused_directly_def split: if_splits option.splits)

lemma focus_post_frame:
  assumes "focus_post e b bw = (b', bw')"
  shows "idx b' = idx b \<and> exe_name b' = exe_name b \<and> title b' = title b \<and>
         proc_pid b' = proc_pid b \<and> length bw' = length bw"
  using assms
  by (auto simp: focus_post_def split: if_splits option.splits)

lemma wf_lookup:
  assumes "wf_state st" "1 \<le> num" "num \<le> 3"
  shows "py_get (browsers st) (num - 1) = Inr (browsers st ! nat (num - 1))"
    and "idx (browsers st ! nat (num - 1)) = num"
    and "py_index (length (browser_windows st)) (num - 1) = Some (nat (num - 1))"
    and "nat (num - 1) < length (browsers st)"
proof -
  from assms(1) have m: "map idx (browsers st) = [1, 2, 3]" and l: "length (browser_windows st) = 3"
    by (simp_all add: wf_state_def)
  from m have "length (map idx (browsers st)) = length [1, 2, 3 :: int]" by (rule arg_cong)
  then have lb: "length (browsers st) = 3" by simp
  from assms(2,3) have n: "num = 1 \<or> num = 2 \<or> num = 3" by arith
  show "py_get (browsers st) (num - 1) = Inr (browsers st ! nat (num - 1))"
    using n lb by (auto simp: py_get_def py_index_def)
  have "idx (browsers st ! nat (num - 1)) = map idx (browsers st) ! nat (num - 1)"
    using n lb by (intro nth_map[symmetric]) auto
  then show "idx (browsers st ! nat (num - 1)) = num"
    using n unfolding m by auto
  show "py_index (length (browser_windows st)) (num - 1) = Some (nat (num - 1))"
    using n l by (auto simp: py_index_def)
  show "nat (num - 1) < length (browsers st)" using n lb by auto
qed

lemma activate_post:
  assumes "wf_state st" "1 \<le> num" "num \<le> 3"
  shows "\<exists>cf. activate e num st =
           (cf @ fst (adjust_audio e (browser_windows (registry_after e num st)) num),
            snd (adjust_audio e (browser_windows (registry_after e num st)) num),
            registry_after e num st) \<and> filter is_set_call cf = []"
proof -
  let ?b = "browsers st ! nat (num - 1)"
  note wl = wf_lookup[OF assms]
  have k: "py_index (length (browser_windows st)) (idx ?b - 1) = Some (nat (num - 1))"
    using wl(2,3) by simp
  obtain cf ok where f: "focus e ?b (browser_windows st) = (cf, Inr ok, focus_post e ?b (browser_windows st))"
    and nc: "filter is_set_call cf = []"
    using focus_post_eq[OF k, of e] by blast
  obtain b' bw' where p: "focus_post e ?b (browser_windows st) = (b', bw')"
    by (cases "focus_post e ?b (browser_windows st)")
  show ?thesis
    using assms(2,3) nc
    by (intro exI[of _ cf])
       (simp add: activate_def wl(1) f p registry_after_def split_beta)
qed

lemma registry_after_wf:
  assumes "wf_state st" "1 \<le> num" "num \<le> 3"
  shows "wf_state (registry_after e num st)"
proof -
  let ?b = "browsers st ! nat (num - 1)"
  obtain b' bw' where p: "focus_post e ?b (browser_windows st) = (b', bw')"
    by (cases "focus_post e ?b (browser_windows st)")
  note fr = focus_post_frame[OF p]
  note wl = wf_lookup[OF assms]
  have "map idx ((browsers st)[nat (num - 1) := b']) = (map idx (browsers st))[nat (num - 1) := idx b']"
    by (simp add: map_update)
  also have "\<dots> = map idx (browsers st)"
    using fr wl(2,4) by (simp add: list_update_same_conv)
  finally show ?thesis
    using assms(1) fr by (simp add: wf_state_def registry_after_def p)
qed

lemma registry_after_idem:
  assumes "wf_state st" "1 \<le> num" "num \<le> 3"
  shows "registry_after e num (registry_after e num st) = registry_after e num st"
proof -
  let ?b = "browsers st ! nat (num - 1)"
  obtain b' bw' where p: "focus_post e ?b (browser_windows st) = (b', bw')"
    by (cases "focus_post e ?b (browser_windows st)")
  note wl = wf_lookup[OF assms]
  have "focus_post e b' bw' = (b', bw')" by (rule focus_post_idem[OF p])
  then show ?thesis
    using wl(4) by (simp add: registry_after_def p)
qed




section \<open>\<^verbatim>\<open>Switcher.activate\<close>: the claims\<close>

text \<open>
  Claim C9: for every integer \<open>num\<close> outside 1, 2, 3, \<^verbatim>\<open>activate(num)\<close> returns false
  at once: it makes no call at all (no focus request, no inventory fetch, no volume or
  mute operation) and leaves the registry as it is.
\<close>

theorem activate_invalid_index:
  "num < 1 \<or> 3 < num \<Longrightarrow> activate e num st = ([], Inr False, st)"
  by (auto simp: activate_def)

theorem activate_invalid_index_witness:
  "activate moved_window_audio_env 0 launched = ([], Inr False, launched) \<and>
   activate moved_window_audio_env 4 launched = ([], Inr False, launched)"
  using activate_invalid_index[of 0 moved_window_audio_env launched]
        activate_invalid_index[of 4 moved_window_audio_env launched]
  by simp

text \<open>
  Whenever \<^verbatim>\<open>activate(n)\<close> returns for a valid \<open>n\<close>, the value is whether the playback
  inventory has a stream.
\<close>

lemma activate_returns_inventory:
  assumes "1 \<le> num" "num \<le> 3" "activate e num st = (c, Inr r, st')"
  shows "r = (snd (list_audio_streams e) \<noteq> [])"
  using assms
  by (auto simp: activate_def adjust_audio_def Let_def split: sum.splits prod.splits if_splits)

text \<open>
  With an empty playback inventory \<^verbatim>\<open>activate\<close> returns false and sets nothing, whatever
  the focus did. With a playback inventory that \<^verbatim>\<open>adjust_stream_volumes\<close> handles and an
  empty capture inventory it returns true and makes no mute-set.
\<close>

lemma activate_empty_inventory:
  assumes "wf_state st" "1 \<le> num" "num \<le> 3" "snd (list_audio_streams e) = []"
  shows "fst (snd (activate e num st)) = Inr False \<and> filter is_set_call (fst (activate e num st)) = []"
proof -
  obtain cf where a: "activate e num st =
           (cf @ fst (adjust_audio e (browser_windows (registry_after e num st)) num),
            snd (adjust_audio e (browser_windows (registry_after e num st)) num),
            registry_after e num st)" and f: "filter is_set_call cf = []"
    using activate_post[OF assms(1-3), of e] by blast
  have "adjust_audio e (browser_windows (registry_after e num st)) num = ([PactlListSinkInputs], Inr False)"
    using assms(4) by (simp add: adjust_audio_def list_audio_streams_def)
  with a f show ?thesis by (simp add: is_set_call_def)
qed

lemma no_mute_simps [simp]:
  "no_mute []" "no_mute (cs @ ds) = (no_mute cs \<and> no_mute ds)"
  "no_mute (PactlSetVol i v # cs) = no_mute cs" "no_mute (XpropPid w # cs) = no_mute cs"
  by (simp_all add: no_mute_def)

lemma no_mute_concat: "(\<And>s. s \<in> set ss \<Longrightarrow> no_mute (f s)) \<Longrightarrow> no_mute (concat (map f ss))"
  by (induction ss) auto

lemma no_mute_loops:
  "no_mute (vivaldi_loop streams)" "no_mute (pid_loop ap streams)"
  "no_mute (google_chrome_loop streams)" "no_mute (aggressive a streams)"
  "no_mute (unassigned_to_vivaldi assigned streams)"
  unfolding vivaldi_loop_def pid_loop_def google_chrome_loop_def aggressive_def
    unassigned_to_vivaldi_def aggressive_step_def
  by (auto intro!: no_mute_concat simp: Let_def split: option.splits)

lemma no_mute_chromium_loop: "no_mute (chromium_loop found ss)"
  by (induction ss arbitrary: found) (auto simp: Let_def split: option.splits)

lemma no_mute_chromium_inactive: "no_mute (fst (chromium_inactive ap ss))"
  by (induction ss) (auto simp: Let_def split_beta split: option.splits)

lemma no_mute_set_vols: "no_mute (map (\<lambda>p. PactlSetVol (fst p) (f p)) A)"
  by (induction A) simp_all

lemma no_mute_first_attempt: "no_mute (calls (snd (first_attempt e a w streams)))"
  by (simp add: first_attempt_state fallback_calls_def no_mute_loops no_mute_set_vols)

lemma no_mute_adjust_stream_volumes: "no_mute (fst (adjust_stream_volumes e bw a streams))"
proof -
  have lr: "no_mute (fst (last_resort ap streams))" for ap
    by (auto simp: last_resort_def Let_def no_mute_loops no_mute_chromium_loop split: option.splits)
  have sp: "no_mute (fst (special_browser2 ap streams))" for ap
    using no_mute_chromium_inactive[of ap streams]
    by (auto simp: special_browser2_def no_mute_loops split: prod.splits option.splits)
  show ?thesis
    using lr sp no_mute_first_attempt[of e a _ streams] no_mute_loops(4)[of a streams]
    by (auto simp: adjust_stream_volumes_def Let_def split_beta split: sum.splits option.splits)
qed

lemma no_mute_iff: "no_mute cs = (\<forall>i m. PactlSetMute i m \<notin> set cs)"
  by (induction cs) (auto simp: no_mute_def split: cmd.splits)

lemma no_set_call_no_mute: "filter is_set_call cs = [] \<Longrightarrow> no_mute cs"
  by (induction cs) (auto simp: no_mute_def is_set_call_def split: cmd.splits if_splits)

lemma activate_without_capture:
  assumes "wf_state st" "1 \<le> num" "num \<le> 3"
    and "snd (list_audio_streams e) \<noteq> []"
    and "snd (list_microphone_streams e) = []"
    and "snd (adjust_stream_volumes e (browser_windows (registry_after e num st)) num
                (snd (list_audio_streams e))) = Inr r"
  shows "fst (snd (activate e num st)) = Inr True \<and>
         (\<forall>i m. PactlSetMute i m \<notin> set (fst (activate e num st)))"
proof -
  let ?bw = "browser_windows (registry_after e num st)"
  let ?v = "adjust_stream_volumes e ?bw num (snd (list_audio_streams e))"
  obtain cf where a: "activate e num st =
           (cf @ fst (adjust_audio e ?bw num), snd (adjust_audio e ?bw num), registry_after e num st)"
    and f: "filter is_set_call cf = []"
    using activate_post[OF assms(1-3), of e] by blast
  have fl: "fst (list_audio_streams e) = [PactlListSinkInputs]"
    "fst (list_microphone_streams e) = [PactlListSourceOutputs]"
    by (simp_all add: list_audio_streams_def list_microphone_streams_def)
  have au: "adjust_audio e ?bw num =
              (PactlListSinkInputs # fst ?v @ [PactlListSourceOutputs], Inr True)"
    by (simp add: adjust_audio_def split_beta Let_def assms(4,5,6) fl)
  have "no_mute (cf @ PactlListSinkInputs # fst ?v @ [PactlListSourceOutputs])"
    using no_set_call_no_mute[OF f] no_mute_adjust_stream_volumes[of e ?bw num "snd (list_audio_streams e)"]
    by (simp add: no_mute_def)
  with a au show ?thesis by (simp add: no_mute_iff)
qed


text \<open>
  Claim C5 says that for every valid \<open>n\<close>, \<^verbatim>\<open>activate(n)\<close> returns true exactly when
  the playback inventory has a stream. With no window discovered and one playback stream
  of another application, the inventory has a stream and \<^verbatim>\<open>activate(1)\<close> does not
  return: \<^verbatim>\<open>adjust_stream_volumes\<close> raises \<^verbatim>\<open>UnboundLocalError\<close>, and \<^verbatim>\<open>activate\<close>
  has no handler.
\<close>

theorem activate_raises_on_unknown_window:
  "snd (list_audio_streams one_sink_env) = [named_stream ''5'' (Some ''Firefox'')] \<and>
   activate one_sink_env 1 no_windows =
     ([WmctrlList, WmctrlFocusTitle ''Browser 1'', PactlListSinkInputs,
       PactlSetVol ''5'' INACTIVE_VOL],
      Inl UnboundLocalError, no_windows)"
  by code_simp

text \<open>
  Claim C6: for a registry as \<^verbatim>\<open>Switcher.__init__\<close> builds it and an outside world
  that answers the second call as it answered the first, \<^verbatim>\<open>activate(n)\<close> invoked twice
  in succession gives the same result twice: the same value or exception, the same
  volume-sets and mute-sets in the same order, and the registry of the first call is left
  as it is by the second.
\<close>

theorem activate_twice_same_result:
  assumes wf: "wf_state st"
    and first: "activate e num st = (c1, r1, st1)"
    and second: "activate e num st1 = (c2, r2, st2)"
  shows "r2 = r1 \<and> st2 = st1 \<and> filter is_set_call c2 = filter is_set_call c1"
proof (cases "1 \<le> num \<and> num \<le> 3")
  case False
  with first second show ?thesis by (auto simp: activate_def)
next
  case True
  then have n: "1 \<le> num" "num \<le> 3" by simp_all
  obtain cf where a1: "activate e num st =
           (cf @ fst (adjust_audio e (browser_windows (registry_after e num st)) num),
            snd (adjust_audio e (browser_windows (registry_after e num st)) num),
            registry_after e num st)" and f1: "filter is_set_call cf = []"
    using activate_post[OF wf n, of e] by blast
  from first a1 have st1: "st1 = registry_after e num st" by simp
  have wf1: "wf_state st1" unfolding st1 by (rule registry_after_wf[OF wf n])
  obtain cf' where a2: "activate e num st1 =
           (cf' @ fst (adjust_audio e (browser_windows (registry_after e num st1)) num),
            snd (adjust_audio e (browser_windows (registry_after e num st1)) num),
            registry_after e num st1)" and f2: "filter is_set_call cf' = []"
    using activate_post[OF wf1 n, of e] by blast
  have idem: "registry_after e num st1 = st1"
    unfolding st1 by (rule registry_after_idem[OF wf n])
  from first a1 second a2 f1 f2 show ?thesis
    unfolding idem by (auto simp: st1)
qed

theorem activate_twice_same_result_witness:
  "wf_state launched \<and>
   snd (snd (activate moved_window_audio_env 1 launched)) \<noteq> launched \<and>
   filter is_set_call (fst (activate moved_window_audio_env 1 launched)) =
     [PactlSetVol ''5'' ACTIVE_VOL] \<and>
   fst (snd (activate moved_window_audio_env 1 (snd (snd (activate moved_window_audio_env 1 launched))))) =
     fst (snd (activate moved_window_audio_env 1 launched)) \<and>
   snd (snd (activate moved_window_audio_env 1 (snd (snd (activate moved_window_audio_env 1 launched))))) =
     snd (snd (activate moved_window_audio_env 1 launched)) \<and>
   filter is_set_call
     (fst (activate moved_window_audio_env 1 (snd (snd (activate moved_window_audio_env 1 launched))))) =
     filter is_set_call (fst (activate moved_window_audio_env 1 launched))"
proof -
  let ?a1 = "activate moved_window_audio_env 1 launched"
  let ?a2 = "activate moved_window_audio_env 1 (snd (snd ?a1))"
  have wf: "wf_state launched" by code_simp
  have moved: "snd (snd ?a1) \<noteq> launched" by code_simp
  have sets: "filter is_set_call (fst ?a1) = [PactlSetVol ''5'' ACTIVE_VOL]" by code_simp
  have a1: "?a1 = (fst ?a1, fst (snd ?a1), snd (snd ?a1))" by simp
  have a2: "?a2 = (fst ?a2, fst (snd ?a2), snd (snd ?a2))" by simp
  from activate_twice_same_result[OF wf a1 a2] wf moved sets show ?thesis by blast
qed





section \<open>The stream parsers\<close>

lemma flush_eq: "flush S cur = S @ (if sid cur \<noteq> None then [cur] else [])"
  by (simp add: flush_def)

lemma fold_parse_line:
  assumes keep: "\<And>cur l. sid (p cur l) = sid cur"
  shows "flush (fst (fold (\<lambda>raw acc. parse_line hp p acc raw) raws (S, cur)))
               (snd (fold (\<lambda>raw acc. parse_line hp p acc raw) raws (S, cur))) =
         S @ (if sid cur \<noteq> None
              then [fold (\<lambda>l c. p c l) (takeWhile (\<lambda>x. \<not> prefix hp x) (map strip raws)) cur]
              else []) @
         map (block_record p) (blocks hp (map strip raws))"
proof (induction raws arbitrary: S cur)
  case Nil
  show ?case by (simp add: flush_eq)
next
  case (Cons raw raws)
  show ?case
  proof (cases "prefix hp (strip raw)")
    case True
    have "fold (\<lambda>raw acc. parse_line hp p acc raw) (raw # raws) (S, cur) =
          fold (\<lambda>raw acc. parse_line hp p acc raw) raws (flush S cur, new_stream (strip raw))"
      using True by (simp add: parse_line_def)
    then show ?thesis
      using True Cons.IH[of "flush S cur" "new_stream (strip raw)"]
      by (simp add: flush_eq block_record_def new_stream_def)
  next
    case False
    have "fold (\<lambda>raw acc. parse_line hp p acc raw) (raw # raws) (S, cur) =
          fold (\<lambda>raw acc. parse_line hp p acc raw) raws (S, p cur (strip raw))"
      using False by (simp add: parse_line_def)
    then show ?thesis
      using False Cons.IH[of S "p cur (strip raw)"] keep
      by simp
  qed
qed

lemma parse_streams_blocks:
  assumes "\<And>cur l. sid (p cur l) = sid cur"
  shows "parse_streams hp p txt =
           map (block_record p) (blocks hp (map strip (splitlines txt)))"
  using fold_parse_line[of p hp "splitlines txt" "[]" empty_stream, OF assms]
  by (simp add: parse_streams_def Let_def empty_stream_def)

lemma sink_property_sid: "sid (sink_property cur l) = sid cur"
  by (simp add: sink_property_def split: option.splits)

lemma source_property_sid: "sid (source_property cur l) = sid cur"
  by (simp add: source_property_def split: option.splits)

lemma blocks_headers: "map fst (blocks hp ls) = filter (prefix hp) ls"
  by (induction ls) simp_all

lemma fold_keeps:
  assumes "\<And>cur l. g (p cur l) = g cur"
  shows "g (fold (\<lambda>l c. p c l) body r0) = g r0"
  by (induction body arbitrary: r0) (simp_all add: assms)

lemma fold_value:
  assumes "\<And>cur l v. g (p cur l) = Some v \<Longrightarrow> g cur = Some v \<or> (K l \<and> pat l = Some v)"
    and "g (fold (\<lambda>l c. p c l) body r0) = Some v"
  shows "g r0 = Some v \<or> (\<exists>l \<in> set body. K l \<and> pat l = Some v)"
  using assms(2)
proof (induction body arbitrary: r0)
  case Nil
  then show ?case by simp
next
  case (Cons l body)
  from Cons.prems have "g (fold (\<lambda>l c. p c l) body (p r0 l)) = Some v" by simp
  from Cons.IH[OF this] assms(1)[of r0 l v] show ?case by auto
qed

lemma fold_presence:
  assumes "\<And>cur l. (g (p cur l) = None) = (g cur = None \<and> g (p empty_stream l) = None)"
  shows "(g (fold (\<lambda>l c. p c l) body r0) = None) =
         (g r0 = None \<and> (\<forall>l \<in> set body. g (p empty_stream l) = None))"
proof (induction body arbitrary: r0)
  case Nil
  show ?case by simp
next
  case (Cons l body)
  show ?case using Cons.IH[of "p r0 l"] assms[of r0 l] by auto
qed

lemma presence_perm:
  assumes "\<And>cur l. (g (p cur l) = None) = (g cur = None \<and> g (p empty_stream l) = None)"
    and "mset body' = mset body"
  shows "(g (block_record p (h, body')) = None) = (g (block_record p (h, body)) = None)"
proof -
  from assms(2) have "set body' = set body" by (rule mset_eq_setD)
  then show ?thesis
    unfolding block_record_def by (simp add: fold_presence[OF assms(1)])
qed

lemma sink_app_value:
  "app_name (sink_property cur l) = Some v \<Longrightarrow>
   app_name cur = Some v \<or> (str_in ''application.name'' l \<and> PAT_APP_NAME l = Some v)"
  by (auto simp: sink_property_def split: if_splits option.splits)

lemma sink_binary_value:
  "binary (sink_property cur l) = Some v \<Longrightarrow>
   binary cur = Some v \<or> (str_in ''application.process.binary'' l \<and> PAT_APP_PROCESS l = Some v)"
  by (auto simp: sink_property_def split: if_splits option.splits)

lemma sink_pid_value:
  "pid (sink_property cur l) = Some v \<Longrightarrow>
   pid cur = Some v \<or> (str_in ''application.process.id'' l \<and> PAT_APP_PID l = Some v)"
  by (auto simp: sink_property_def split: if_splits option.splits)

lemma source_app_value:
  "app_name (source_property cur l) = Some v \<Longrightarrow>
   app_name cur = Some v \<or> (str_in ''application.name'' l \<and> PAT_APP_NAME l = Some v)"
  by (auto simp: source_property_def split: if_splits option.splits)

lemma source_binary_value:
  "binary (source_property cur l) = Some v \<Longrightarrow>
   binary cur = Some v \<or> (str_in ''application.process.binary'' l \<and> PAT_APP_PROCESS l = Some v)"
  by (auto simp: source_property_def split: if_splits option.splits)

lemma source_pid_value:
  "pid (source_property cur l) = Some v \<Longrightarrow>
   pid cur = Some v \<or> (str_in ''application.process.id'' l \<and> PAT_APP_PID l = Some v)"
  by (auto simp: source_property_def split: if_splits option.splits)

lemma sink_presence:
  "(app_name (sink_property cur l) = None) = (app_name cur = None \<and> app_name (sink_property empty_stream l) = None)"
  "(binary (sink_property cur l) = None) = (binary cur = None \<and> binary (sink_property empty_stream l) = None)"
  "(pid (sink_property cur l) = None) = (pid cur = None \<and> pid (sink_property empty_stream l) = None)"
  by (auto simp: sink_property_def empty_stream_def split: option.splits)

lemma source_presence:
  "(app_name (source_property cur l) = None) = (app_name cur = None \<and> app_name (source_property empty_stream l) = None)"
  "(binary (source_property cur l) = None) = (binary cur = None \<and> binary (source_property empty_stream l) = None)"
  "(pid (source_property cur l) = None) = (pid cur = None \<and> pid (source_property empty_stream l) = None)"
  by (auto simp: source_property_def empty_stream_def split: option.splits)

lemma no_key_ignored: "no_key l \<Longrightarrow> sink_property cur l = cur \<and> source_property cur l = cur"
  by (simp add: no_key_def sink_property_def source_property_def)

lemma block_record_sid:
  assumes "\<And>cur l. sid (p cur l) = sid cur"
  shows "sid (block_record p (h, body)) = Some (header_id h)"
  unfolding block_record_def
  using fold_keeps[of sid p body "new_stream h", OF assms] by (simp add: new_stream_def)

lemma block_record_value:
  assumes "\<And>cur l v. g (p cur l) = Some v \<Longrightarrow> g cur = Some v \<or> (K l \<and> pat l = Some v)"
    and "g (new_stream h) = None"
    and "g (block_record p (h, body)) = Some v"
  shows "\<exists>l \<in> set body. K l \<and> pat l = Some v"
  using fold_value[of g p K pat body "new_stream h" v, OF assms(1)] assms(2,3)
  by (simp add: block_record_def)

lemma new_stream_fields:
  "app_name (new_stream h) = None" "binary (new_stream h) = None" "pid (new_stream h) = None"
  by (simp_all add: new_stream_def)

lemma block_facts:
  assumes "p = sink_property \<or> p = source_property"
  shows "sid (block_record p (h, body)) = Some (header_id h)"
    and "app_name (block_record p (h, body)) = Some v \<Longrightarrow>
           \<exists>l \<in> set body. str_in ''application.name'' l \<and> PAT_APP_NAME l = Some v"
    and "binary (block_record p (h, body)) = Some v \<Longrightarrow>
           \<exists>l \<in> set body. str_in ''application.process.binary'' l \<and> PAT_APP_PROCESS l = Some v"
    and "pid (block_record p (h, body)) = Some v \<Longrightarrow>
           \<exists>l \<in> set body. str_in ''application.process.id'' l \<and> PAT_APP_PID l = Some v"
    and "mset body' = mset body \<Longrightarrow>
           (app_name (block_record p (h, body')) = None) = (app_name (block_record p (h, body)) = None) \<and>
           (binary (block_record p (h, body')) = None) = (binary (block_record p (h, body)) = None) \<and>
           (pid (block_record p (h, body')) = None) = (pid (block_record p (h, body)) = None)"
    and "no_key l \<Longrightarrow> p cur l = cur"
proof -
  from assms show "sid (block_record p (h, body)) = Some (header_id h)"
    by (auto intro!: block_record_sid simp: sink_property_sid source_property_sid)
  from assms show "app_name (block_record p (h, body)) = Some v \<Longrightarrow>
           \<exists>l \<in> set body. str_in ''application.name'' l \<and> PAT_APP_NAME l = Some v"
    by (auto intro: block_record_value[where g = app_name, OF sink_app_value new_stream_fields(1)]
                    block_record_value[where g = app_name, OF source_app_value new_stream_fields(1)])
  from assms show "binary (block_record p (h, body)) = Some v \<Longrightarrow>
           \<exists>l \<in> set body. str_in ''application.process.binary'' l \<and> PAT_APP_PROCESS l = Some v"
    by (auto intro: block_record_value[where g = binary, OF sink_binary_value new_stream_fields(2)]
                    block_record_value[where g = binary, OF source_binary_value new_stream_fields(2)])
  from assms show "pid (block_record p (h, body)) = Some v \<Longrightarrow>
           \<exists>l \<in> set body. str_in ''application.process.id'' l \<and> PAT_APP_PID l = Some v"
    by (auto intro: block_record_value[where g = pid, OF sink_pid_value new_stream_fields(3)]
                    block_record_value[where g = pid, OF source_pid_value new_stream_fields(3)])
  show "(app_name (block_record p (h, body')) = None) = (app_name (block_record p (h, body)) = None) \<and>
        (binary (block_record p (h, body')) = None) = (binary (block_record p (h, body)) = None) \<and>
        (pid (block_record p (h, body')) = None) = (pid (block_record p (h, body)) = None)"
    if m: "mset body' = mset body"
  proof -
    from assms show ?thesis
    proof
      assume p: "p = sink_property"
      show ?thesis
        unfolding p
        using presence_perm[where g = app_name and p = sink_property, OF sink_presence(1) m, of h]
              presence_perm[where g = binary and p = sink_property, OF sink_presence(2) m, of h]
              presence_perm[where g = pid and p = sink_property, OF sink_presence(3) m, of h]
        by (intro conjI)
    next
      assume p: "p = source_property"
      show ?thesis
        unfolding p
        using presence_perm[where g = app_name and p = source_property, OF source_presence(1) m, of h]
              presence_perm[where g = binary and p = source_property, OF source_presence(2) m, of h]
              presence_perm[where g = pid and p = source_property, OF source_presence(3) m, of h]
        by (intro conjI)
    qed
  qed
  from assms show "no_key l \<Longrightarrow> p cur l = cur"
    using no_key_ignored by blast
qed


text \<open>
  Claim C8: for every dump text, each parser returns the records of the blocks of the
  dump, one for every header line (a stripped line that starts with \<^verbatim>\<open>Sink Input #\<close>,
  or \<^verbatim>\<open>Source Output #\<close>) and in the order of the headers. For every block, the id of
  the record is the text after the \<^verbatim>\<open>#\<close> of the header; the record has an application
  name, a binary or a process id only if a line of the block contains the key and the
  pattern of the key matches the line with that value; which of the three fields are
  present does not change when the lines of the block are reordered; a line with none of
  the keys leaves the record as it is.
\<close>

theorem parsers_one_record_per_header:
  "snd (list_audio_streams e) =
     map (block_record sink_property)
         (blocks ''Sink Input #'' (map strip (splitlines (sink_inputs e)))) \<and>
   snd (list_microphone_streams e) =
     map (block_record source_property)
         (blocks ''Source Output #'' (map strip (splitlines (source_outputs e)))) \<and>
   map fst (blocks hp ls) = filter (prefix hp) ls \<and>
   (p = sink_property \<or> p = source_property \<longrightarrow>
      sid (block_record p (h, body)) = Some (header_id h) \<and>
      (app_name (block_record p (h, body)) = Some v \<longrightarrow>
         (\<exists>l \<in> set body. str_in ''application.name'' l \<and> PAT_APP_NAME l = Some v)) \<and>
      (binary (block_record p (h, body)) = Some v \<longrightarrow>
         (\<exists>l \<in> set body. str_in ''application.process.binary'' l \<and> PAT_APP_PROCESS l = Some v)) \<and>
      (pid (block_record p (h, body)) = Some v \<longrightarrow>
         (\<exists>l \<in> set body. str_in ''application.process.id'' l \<and> PAT_APP_PID l = Some v)) \<and>
      (mset body' = mset body \<longrightarrow>
         (app_name (block_record p (h, body')) = None) = (app_name (block_record p (h, body)) = None) \<and>
         (binary (block_record p (h, body')) = None) = (binary (block_record p (h, body)) = None) \<and>
         (pid (block_record p (h, body')) = None) = (pid (block_record p (h, body)) = None)) \<and>
      (no_key l \<longrightarrow> p cur l = cur))"
proof -
  have sink: "snd (list_audio_streams e) =
     map (block_record sink_property)
         (blocks ''Sink Input #'' (map strip (splitlines (sink_inputs e))))"
    by (simp add: list_audio_streams_def parse_streams_blocks[OF sink_property_sid])
  have "parse_streams ''Source Output #'' source_property [] = []"
    by (simp add: parse_streams_def splitlines_def flush_def empty_stream_def)
  then have source: "snd (list_microphone_streams e) =
     map (block_record source_property)
         (blocks ''Source Output #'' (map strip (splitlines (source_outputs e))))"
    by (simp add: list_microphone_streams_def parse_streams_blocks[OF source_property_sid, symmetric])
  have blk: "p = sink_property \<or> p = source_property \<longrightarrow>
      sid (block_record p (h, body)) = Some (header_id h) \<and>
      (app_name (block_record p (h, body)) = Some v \<longrightarrow>
         (\<exists>l \<in> set body. str_in ''application.name'' l \<and> PAT_APP_NAME l = Some v)) \<and>
      (binary (block_record p (h, body)) = Some v \<longrightarrow>
         (\<exists>l \<in> set body. str_in ''application.process.binary'' l \<and> PAT_APP_PROCESS l = Some v)) \<and>
      (pid (block_record p (h, body)) = Some v \<longrightarrow>
         (\<exists>l \<in> set body. str_in ''application.process.id'' l \<and> PAT_APP_PID l = Some v)) \<and>
      (mset body' = mset body \<longrightarrow>
         (app_name (block_record p (h, body')) = None) = (app_name (block_record p (h, body)) = None) \<and>
         (binary (block_record p (h, body')) = None) = (binary (block_record p (h, body)) = None) \<and>
         (pid (block_record p (h, body')) = None) = (pid (block_record p (h, body)) = None)) \<and>
      (no_key l \<longrightarrow> p cur l = cur)"
  proof
    assume which: "p = sink_property \<or> p = source_property"
    note f = block_facts[OF which]
    from f(1)[of h body] f(2)[of h body v] f(3)[of h body v] f(4)[of h body v]
         f(5)[of body' body h] f(6)[of l cur]
    show "sid (block_record p (h, body)) = Some (header_id h) \<and>
      (app_name (block_record p (h, body)) = Some v \<longrightarrow>
         (\<exists>l \<in> set body. str_in ''application.name'' l \<and> PAT_APP_NAME l = Some v)) \<and>
      (binary (block_record p (h, body)) = Some v \<longrightarrow>
         (\<exists>l \<in> set body. str_in ''application.process.binary'' l \<and> PAT_APP_PROCESS l = Some v)) \<and>
      (pid (block_record p (h, body)) = Some v \<longrightarrow>
         (\<exists>l \<in> set body. str_in ''application.process.id'' l \<and> PAT_APP_PID l = Some v)) \<and>
      (mset body' = mset body \<longrightarrow>
         (app_name (block_record p (h, body')) = None) = (app_name (block_record p (h, body)) = None) \<and>
         (binary (block_record p (h, body')) = None) = (binary (block_record p (h, body)) = None) \<and>
         (pid (block_record p (h, body')) = None) = (pid (block_record p (h, body)) = None)) \<and>
      (no_key l \<longrightarrow> p cur l = cur)"
      by blast
  qed
  from sink source blocks_headers[of hp ls] blk
  show ?thesis by (intro conjI)
qed

theorem parsers_one_record_per_header_witness:
  "snd (list_audio_streams two_sink_env) =
     [\<lparr>sid = Some ''12'', app_name = Some ''Google Chrome'', binary = Some ''chrome'',
       media_name = None, pid = Some ''4321''\<rparr>,
      \<lparr>sid = Some ''13'', app_name = None, binary = None, media_name = None, pid = None\<rparr>] \<and>
   header_id (fst chrome_block) = ''12'' \<and>
   (\<exists>l \<in> set (snd chrome_block).
      str_in ''application.name'' l \<and> PAT_APP_NAME l = Some ''Google Chrome'') \<and>
   (\<exists>l \<in> set (snd chrome_block).
      str_in ''application.process.binary'' l \<and> PAT_APP_PROCESS l = Some ''chrome'') \<and>
   (\<exists>l \<in> set (snd chrome_block).
      str_in ''application.process.id'' l \<and> PAT_APP_PID l = Some ''4321'') \<and>
   pid (block_record sink_property (fst chrome_block, rev (snd chrome_block))) \<noteq> None \<and>
   sink_property empty_stream ''Driver: protocol-native.c'' = empty_stream"
proof -
  let ?h = "fst chrome_block" and ?body = "snd chrome_block"
  have blk: "map (block_record sink_property)
         (blocks ''Sink Input #'' (map strip (splitlines (sink_inputs two_sink_env)))) =
     [\<lparr>sid = Some ''12'', app_name = Some ''Google Chrome'', binary = Some ''chrome'',
       media_name = None, pid = Some ''4321''\<rparr>,
      \<lparr>sid = Some ''13'', app_name = None, binary = None, media_name = None, pid = None\<rparr>]"
    by code_simp
  have hid: "header_id ?h = ''12''" by code_simp
  have a: "app_name (block_record sink_property (?h, ?body)) = Some ''Google Chrome''" by code_simp
  have b: "binary (block_record sink_property (?h, ?body)) = Some ''chrome''" by code_simp
  have c: "pid (block_record sink_property (?h, ?body)) = Some ''4321''" by code_simp
  have m: "mset (rev ?body) = mset ?body" by simp
  have k: "no_key ''Driver: protocol-native.c''" by code_simp
  note t = parsers_one_record_per_header[of two_sink_env _ _ sink_property ?h ?body _ "rev ?body"
             "''Driver: protocol-native.c''" empty_stream]
  from t have recs: "snd (list_audio_streams two_sink_env) =
     map (block_record sink_property)
         (blocks ''Sink Input #'' (map strip (splitlines (sink_inputs two_sink_env))))"
    by blast
  from t[where v = "''Google Chrome''"] a
  have ea: "\<exists>l \<in> set ?body. str_in ''application.name'' l \<and> PAT_APP_NAME l = Some ''Google Chrome''"
    by blast
  from t[where v = "''chrome''"] b
  have eb: "\<exists>l \<in> set ?body. str_in ''application.process.binary'' l \<and> PAT_APP_PROCESS l = Some ''chrome''"
    by blast
  from t[where v = "''4321''"] c
  have ec: "\<exists>l \<in> set ?body. str_in ''application.process.id'' l \<and> PAT_APP_PID l = Some ''4321''"
    by blast
  from t m c have pp: "pid (block_record sink_property (?h, rev ?body)) \<noteq> None"
    by (metis option.distinct(1))
  from t k have ig: "sink_property empty_stream ''Driver: protocol-native.c'' = empty_stream"
    by blast
  from recs blk hid ea eb ec pp ig show ?thesis by simp
qed

end
